theory Spec2Isabelle
  imports Complex_Main
begin

section \<open>Exceptions and results\<close>

text \<open>
  The Python exceptions the pipeline can meet. A function that may raise returns
  \<open>exn + 'a\<close>: \<open>Inl e\<close> is "raised \<open>e\<close>", \<open>Inr v\<close> is "returned \<open>v\<close>".
  The parser errors of pandas (\<open>ParserError\<close>, \<open>EmptyDataError\<close>) are subclasses of
  \<open>ValueError\<close> and are modelled as \<open>ValueError\<close>.
\<close>

datatype exn = FileNotFoundError | IndexError | ValueError | ZeroDivisionError | InvalidIndexError

type_synonym 'a result = "exn + 'a"

section \<open>File lookup by prefix\<close>

text \<open>
  A directory is the list of its entries (name and content) in the order in which
  \<open>Path.glob\<close> enumerates them. \<open>glob_match prefix name\<close> is the pattern
  \<open>f"{prefix}*.csv"\<close> for a prefix without glob metacharacters (the two prefixes of the
  pipeline have none), matched case-sensitively.
\<close>

type_synonym 'a directory = "(string \<times> 'a) list"

definition glob_match :: "string \<Rightarrow> string \<Rightarrow> bool" where
  "glob_match prefix name =
     (length prefix + 4 \<le> length name \<and> take (length prefix) name = prefix \<and>
      drop (length name - 4) name = ''.csv'')"

definition glob :: "'a directory \<Rightarrow> string \<Rightarrow> (string \<times> 'a) list" where
  "glob dir prefix = filter (\<lambda>(name, _). glob_match prefix name) dir"

definition get_file_by_prefix :: "'a directory \<Rightarrow> string \<Rightarrow> (string \<times> 'a) result" where
  "get_file_by_prefix dir prefix =
     (case glob dir prefix of
        [] \<Rightarrow> Inl FileNotFoundError
      | f # _ \<Rightarrow> Inr f)"

section \<open>Spectral frames\<close>

text \<open>
  A data frame as \<open>pd.read_csv(path, index_col=0)\<close> yields it: the column labels, and the
  rows, each a row label with its cells. A row label is a wavelength; \<open>None\<close> is NaN (what
  \<open>pd.to_numeric(errors='coerce')\<close> makes of a label that is not a number). Cells are
  real numbers: floating-point rounding and NaN cells are outside the model.
\<close>

record 'c frame =
  columns :: "'c list"
  rows :: "(real option \<times> real list) list"

definition wf_frame :: "'c frame \<Rightarrow> bool" where
  "wf_frame df = list_all (\<lambda>(w, vs). length vs = length (columns df)) (rows df)"

definition row_labels :: "'c frame \<Rightarrow> real option list" where
  "row_labels df = map fst (rows df)"

definition column :: "'c frame \<Rightarrow> nat \<Rightarrow> real list" where
  "column df j = map (\<lambda>(w, vs). vs ! j) (rows df)"

section \<open>Time-axis standardizer\<close>

text \<open>
  \<open>np.arange(0, stop, step, dtype=int)\<close> on integers: \<open>max 0 \<lceil>stop / step\<rceil>\<close> elements
  \<open>0, step, 2 * step, \<dots>\<close>. A zero step raises: \<open>ZeroDivisionError\<close> for Python
  integers (for numpy scalars numpy reports the impossible length with an error of
  another class; the call stands outside every \<open>try\<close>, so the class decides nothing).
\<close>

definition np_arange :: "int \<Rightarrow> int \<Rightarrow> int list result" where
  "np_arange stop step =
     (if step = 0 then Inl ZeroDivisionError
      else Inr (map (\<lambda>i. int i * step) [0..<nat (- ((- stop) div step))]))"

record reaction_params =
  reaction_id :: int
  num_measurements :: int
  frequency :: int

text \<open>
  \<open>int(s)\<close> for a string without underscores (the token comes from \<open>split('_')\<close>):
  surrounding ASCII whitespace, an optional sign, then one or more decimal digits.
\<close>

definition is_space :: "char \<Rightarrow> bool" where
  "is_space c = (c \<in> set [CHR '' '', CHR 0x09, CHR 0x0A, CHR 0x0B, CHR 0x0C, CHR 0x0D])"

definition is_digit :: "char \<Rightarrow> bool" where
  "is_digit c = (c \<in> set ''0123456789'')"

definition strip :: "string \<Rightarrow> string" where
  "strip s = rev (dropWhile is_space (rev (dropWhile is_space s)))"

definition digit_val :: "char \<Rightarrow> nat" where
  "digit_val c = of_char c - 48"

definition nat_of_digits :: "string \<Rightarrow> nat" where
  "nat_of_digits ds = foldl (\<lambda>acc c. 10 * acc + digit_val c) 0 ds"

definition py_int :: "string \<Rightarrow> int result" where
  "py_int s =
     (let t = strip s;
          (neg, ds) = (case t of
                         c # r \<Rightarrow> if c = CHR ''-'' then (True, r)
                                  else if c = CHR ''+'' then (False, r) else (False, t)
                       | [] \<Rightarrow> (False, t))
      in if ds \<noteq> [] \<and> list_all is_digit ds
         then Inr (if neg then - int (nat_of_digits ds) else int (nat_of_digits ds))
         else Inl ValueError)"

text \<open>\<open>folder.split('_')[0]\<close>: the text before the first underscore.\<close>

definition split_first :: "string \<Rightarrow> string" where
  "split_first folder = takeWhile (\<lambda>c. c \<noteq> CHR ''_'') folder"

text \<open>
  \<open>reaction_params_df[reaction_params_df['reaction_id'] == reaction_id].iloc[0]\<close>: the
  first row of the table with that id; \<open>IndexError\<close> when there is none.
\<close>

definition lookup_params :: "reaction_params list \<Rightarrow> int \<Rightarrow> reaction_params result" where
  "lookup_params table rid =
     (case filter (\<lambda>r. reaction_id r = rid) table of
        [] \<Rightarrow> Inl IndexError
      | p # _ \<Rightarrow> Inr p)"

text \<open>
  The first part of \<open>standardize_time_axis\<close>: parse the reaction id, find the parameters
  (\<open>None\<close>: the run is skipped, the \<open>IndexError\<close> or \<open>ValueError\<close> being caught), then
  build the theoretical time axis (outside the \<open>try\<close>, so an error of \<open>np.arange\<close>
  is raised to the caller).
\<close>

definition find_params :: "string \<Rightarrow> reaction_params list \<Rightarrow> reaction_params option" where
  "find_params folder table =
     (case py_int (split_first folder) of
        Inl _ \<Rightarrow> None
      | Inr rid \<Rightarrow> (case lookup_params table rid of Inl _ \<Rightarrow> None | Inr p \<Rightarrow> Some p))"

definition time_axis :: "string \<Rightarrow> reaction_params list \<Rightarrow> int list option result" where
  "time_axis folder table =
     (case find_params folder table of
        None \<Rightarrow> Inr None
      | Some p \<Rightarrow> (case np_arange (num_measurements p) (frequency p) of
                     Inl e \<Rightarrow> Inl e
                   | Inr tp \<Rightarrow> Inr (Some tp)))"

text \<open>
  The body of the loop over the two bands, after the raw file is read: the wavelength
  cutoff of the visible band, the truncation to the shorter of the two lengths, and the
  new column labels.
\<close>

definition vis_cutoff :: "'c frame \<Rightarrow> 'c frame" where
  "vis_cutoff df =
     df\<lparr>rows := filter (\<lambda>(w, vs). case w of None \<Rightarrow> False | Some x \<Rightarrow> 500 \<le> x) (rows df)\<rparr>"

definition standardize_band :: "bool \<Rightarrow> int list \<Rightarrow> 'c frame \<Rightarrow> int frame" where
  "standardize_band is_vis time_points df0 =
     (let df = (if is_vis then vis_cutoff df0 else df0) in
      if length (columns df) \<noteq> length time_points
      then (let min_len = min (length (columns df)) (length time_points)
            in \<lparr>columns = take min_len time_points,
                rows = map (\<lambda>(w, vs). (w, take min_len vs)) (rows df)\<rparr>)
      else \<lparr>columns = time_points, rows = rows df\<rparr>)"

section \<open>Spectral smoother\<close>

text \<open>
  \<open>round(d)\<close> of numpy and pandas: to \<open>d\<close> decimals, a tie going to the even neighbour.
\<close>

definition round_half_even :: "real \<Rightarrow> int" where
  "round_half_even x =
     (let f = \<lfloor>x\<rfloor>; r = x - of_int f
      in if r < 1 / 2 then f else if 1 / 2 < r then f + 1 else if even f then f else f + 1)"

definition np_round :: "nat \<Rightarrow> real \<Rightarrow> real" where
  "np_round d x = of_int (round_half_even (x * 10 ^ d)) / 10 ^ d"

text \<open>
  \<open>scipy.signal.savgol_filter(x, window_length, polyorder, axis)\<close> in its default mode
  \<open>'interp'\<close>. The library raises \<open>ValueError\<close> when \<open>polyorder\<close> is not below
  \<open>window_length\<close> or when \<open>window_length\<close> exceeds the size \<open>n\<close> of \<open>x\<close> along the
  axis; otherwise it filters every one-dimensional slice along the axis. The numerical
  filter is the library's and is the parameter \<open>core\<close>.
\<close>

type_synonym sg_core = "nat \<Rightarrow> nat \<Rightarrow> real list \<Rightarrow> real list"

definition savgol_filter :: "sg_core \<Rightarrow> nat \<Rightarrow> nat \<Rightarrow> nat \<Rightarrow> real list list \<Rightarrow> real list list result" where
  "savgol_filter core window_length polyorder n slices =
     (if window_length \<le> polyorder \<or> n < window_length then Inl ValueError
      else Inr (map (core window_length polyorder) slices))"

text \<open>
  The body of \<open>apply_smoothing\<close> for one band, after the cleaned file is read: row labels
  rounded to one decimal, the filter along the wavelength axis, the frame rebuilt with
  the labels of \<open>df\<close> (the constructor raises \<open>ValueError\<close> on data of another shape),
  values rounded to two decimals.
\<close>

definition apply_smoothing_frame :: "sg_core \<Rightarrow> nat \<Rightarrow> nat \<Rightarrow> 'c frame \<Rightarrow> 'c frame result" where
  "apply_smoothing_frame core window_length polyorder df =
     (let idx = map (map_option (np_round 1)) (row_labels df);
          n = length (rows df)
      in case savgol_filter core window_length polyorder n
                (map (column df) [0..<length (columns df)]) of
           Inl e \<Rightarrow> Inl e
         | Inr smoothed_data \<Rightarrow>
             if list_all (\<lambda>c. length c = n) smoothed_data
             then Inr \<lparr>columns = columns df,
                       rows = map (\<lambda>i. (idx ! i, map (\<lambda>c. np_round 2 (c ! i)) smoothed_data)) [0..<n]\<rparr>
             else Inl ValueError)"

section \<open>Band merger\<close>

fun index_of :: "'a \<Rightarrow> 'a list \<Rightarrow> nat" where
  "index_of x [] = 0"
| "index_of x (y # ys) = (if x = y then 0 else Suc (index_of x ys))"

text \<open>
  \<open>df_nir.columns.intersection(df_vis.columns)\<close> keeps the order of the left operand;
  \<open>df[common_cols]\<close> selects those columns in that order. Column labels are unique
  (\<open>read_csv\<close> renames duplicates).
\<close>

definition common_columns :: "'c frame \<Rightarrow> 'c frame \<Rightarrow> 'c list" where
  "common_columns df_nir df_vis = filter (\<lambda>c. c \<in> set (columns df_vis)) (columns df_nir)"

definition select_columns :: "'c list \<Rightarrow> 'c frame \<Rightarrow> 'c frame" where
  "select_columns cs df =
     \<lparr>columns = cs,
      rows = map (\<lambda>(w, vs). (w, map (\<lambda>c. vs ! index_of c (columns df)) cs)) (rows df)\<rparr>"

text \<open>Row selection by a condition on the label; a comparison with NaN is false.\<close>

definition label_sat :: "(real \<Rightarrow> bool) \<Rightarrow> real option \<Rightarrow> bool" where
  "label_sat P w = (case w of None \<Rightarrow> False | Some x \<Rightarrow> P x)"

definition select_rows :: "(real \<Rightarrow> bool) \<Rightarrow> 'c frame \<Rightarrow> 'c frame" where
  "select_rows P df = df\<lparr>rows := filter (\<lambda>(w, vs). label_sat P w) (rows df)\<rparr>"

text \<open>\<open>mean(axis=0)\<close>: one mean per column, NaN (\<open>None\<close>) for a frame without rows.\<close>

definition mean :: "real list \<Rightarrow> real option" where
  "mean xs = (if xs = [] then None else Some (sum_list xs / real (length xs)))"

definition column_means :: "'c frame \<Rightarrow> real option list" where
  "column_means df = map (\<lambda>j. mean (column df j)) [0..<length (columns df)]"

text \<open>
  One entry of \<open>scaling_factors\<close>: \<open>np.where(vis_means > threshold, nir_means / vis_means,
  1.0)\<close>, then \<open>fillna(1.0)\<close> and the replacement of \<open>\<plusminus>inf\<close> by \<open>1.0\<close>. A comparison with a
  NaN mean is false; the quotient is NaN when the near-infrared mean is, and NaN or
  infinite when the visible mean is zero.
\<close>

definition scaling_factor :: "real \<Rightarrow> real option \<Rightarrow> real option \<Rightarrow> real" where
  "scaling_factor min_signal_threshold vis_mean nir_mean =
     (case vis_mean of
        None \<Rightarrow> 1
      | Some v \<Rightarrow>
          if min_signal_threshold < v
          then (case nir_mean of
                  None \<Rightarrow> 1
                | Some n \<Rightarrow> if v = 0 then 1 else n / v)
          else 1)"

definition scaling_factors :: "real \<Rightarrow> 'c frame \<Rightarrow> 'c frame \<Rightarrow> real list" where
  "scaling_factors min_signal_threshold vis_region nir_region =
     map (\<lambda>(v, n). scaling_factor min_signal_threshold v n)
       (zip (column_means vis_region) (column_means nir_region))"

text \<open>\<open>df.multiply(factors, axis=1)\<close>: column \<open>j\<close> times factor \<open>j\<close>.\<close>

definition multiply :: "real list \<Rightarrow> 'c frame \<Rightarrow> 'c frame" where
  "multiply factors df =
     df\<lparr>rows := map (\<lambda>(w, vs). (w, map (\<lambda>(v, k). v * k) (zip vs factors))) (rows df)\<rparr>"

text \<open>
  \<open>sort_index()\<close>: ascending by row label. The rows that reach it have a number as
  label. The model's sort is stable; pandas promises no order among equal labels.
\<close>

definition label_key :: "real option \<times> real list \<Rightarrow> real" where
  "label_key r = (case fst r of None \<Rightarrow> 0 | Some x \<Rightarrow> x)"

definition sort_index :: "(real option \<times> real list) list \<Rightarrow> (real option \<times> real list) list" where
  "sort_index rs = sort_key label_key rs"

text \<open>
  The two-band case of \<open>merge_vis_nir_spectra\<close>, after both smoothed files are read.
  The intermediate frames are named as in the source.
\<close>

definition aligned_nir :: "'c frame \<Rightarrow> 'c frame \<Rightarrow> 'c frame" where
  "aligned_nir df_nir df_vis = select_columns (common_columns df_nir df_vis) df_nir"

definition aligned_vis :: "'c frame \<Rightarrow> 'c frame \<Rightarrow> 'c frame" where
  "aligned_vis df_nir df_vis = select_columns (common_columns df_nir df_vis) df_vis"

definition overlap :: "real \<Rightarrow> real \<Rightarrow> 'c frame \<Rightarrow> 'c frame" where
  "overlap stitch_wavelength stitch_window df =
     select_rows (\<lambda>x. stitch_wavelength - stitch_window \<le> x \<and> x \<le> stitch_wavelength + stitch_window) df"

definition merge_factors :: "real \<Rightarrow> real \<Rightarrow> real \<Rightarrow> 'c frame \<Rightarrow> 'c frame \<Rightarrow> real list" where
  "merge_factors stitch_wavelength stitch_window min_signal_threshold df_nir df_vis =
     scaling_factors min_signal_threshold
       (overlap stitch_wavelength stitch_window (aligned_vis df_nir df_vis))
       (overlap stitch_wavelength stitch_window (aligned_nir df_nir df_vis))"

definition df_vis_scaled :: "real \<Rightarrow> real \<Rightarrow> real \<Rightarrow> 'c frame \<Rightarrow> 'c frame \<Rightarrow> 'c frame" where
  "df_vis_scaled stitch_wavelength stitch_window min_signal_threshold df_nir df_vis =
     multiply (merge_factors stitch_wavelength stitch_window min_signal_threshold df_nir df_vis)
       (aligned_vis df_nir df_vis)"

definition merge_frames :: "real \<Rightarrow> real \<Rightarrow> real \<Rightarrow> 'c frame \<Rightarrow> 'c frame \<Rightarrow> 'c frame" where
  "merge_frames stitch_wavelength stitch_window min_signal_threshold df_nir df_vis =
     (let part_vis = select_rows (\<lambda>x. x < stitch_wavelength)
                       (df_vis_scaled stitch_wavelength stitch_window min_signal_threshold df_nir df_vis);
          part_nir = select_rows (\<lambda>x. stitch_wavelength \<le> x) (aligned_nir df_nir df_vis)
      in \<lparr>columns = common_columns df_nir df_vis,
          rows = sort_index (rows part_vis @ rows part_nir)\<rparr>)"

section \<open>Feature extractor\<close>

definition HC_CONST :: real where
  "HC_CONST = 1239.84193"

text \<open>
  \<open>float(s)\<close> for the plain decimal spellings: surrounding whitespace, an optional sign,
  digits with an optional fraction. (Exponents, underscores between digits and the
  spellings of infinity and NaN, which \<open>float\<close> accepts too, are not modelled; the labels
  the pipeline writes are decimal integers.)
\<close>

definition py_float :: "string \<Rightarrow> real result" where
  "py_float s =
     (let t = strip s;
          (neg, u) = (case t of
                        c # r \<Rightarrow> if c = CHR ''-'' then (True, r)
                                 else if c = CHR ''+'' then (False, r) else (False, t)
                      | [] \<Rightarrow> (False, t));
          ip = takeWhile is_digit u;
          rest = dropWhile is_digit u;
          (fp, ok) = (case rest of
                        [] \<Rightarrow> ([], True)
                      | c # r \<Rightarrow> if c = CHR ''.'' \<and> list_all is_digit r then (r, True)
                                 else ([], False));
          m = real (nat_of_digits ip) + real (nat_of_digits fp) / 10 ^ length fp
      in if ok \<and> (ip \<noteq> [] \<or> fp \<noteq> []) then Inr (if neg then - m else m)
         else Inl ValueError)"

text \<open>
  \<open>np.argmax\<close>: the first index of the maximum, the first NaN (\<open>None\<close>) if there is one;
  \<open>ValueError\<close> on an empty array.
\<close>

fun argmax_from :: "nat \<Rightarrow> real \<Rightarrow> nat \<Rightarrow> real option list \<Rightarrow> nat" where
  "argmax_from best_i best_v i [] = best_i"
| "argmax_from best_i best_v i (None # r) = i"
| "argmax_from best_i best_v i (Some v # r) =
     (if best_v < v then argmax_from i v (Suc i) r else argmax_from best_i best_v (Suc i) r)"

definition np_argmax :: "real option list \<Rightarrow> nat result" where
  "np_argmax xs =
     (case xs of
        [] \<Rightarrow> Inl ValueError
      | None # _ \<Rightarrow> Inr 0
      | Some v # r \<Rightarrow> Inr (argmax_from 0 v 1 r))"

record feature =
  timestamp :: string
  max_intensity :: real
  peak_wavelength :: "real option"
  fwhm_ev :: "real option"

text \<open>
  \<open>energies = HC_CONST / wavelengths\<close>. A NaN wavelength has a NaN energy. The energy of
  wavelength 0 is infinite in floating point; the model has no infinity and gives that
  row no energy either.
\<close>

definition energy :: "real option \<Rightarrow> real option" where
  "energy w = (case w of None \<Rightarrow> None | Some x \<Rightarrow> if x = 0 then None else Some (HC_CONST / x))"

text \<open>\<open>intensity * (HC_CONST / energies ** 2)\<close>, row by row.\<close>

definition intensity_ev :: "real option list \<Rightarrow> real list \<Rightarrow> real option list" where
  "intensity_ev wavelengths intensity =
     map (\<lambda>(w, i). case energy w of None \<Rightarrow> None | Some e \<Rightarrow> Some (i * (HC_CONST / e ^ 2)))
       (zip wavelengths intensity)"

definition is_below :: "real option \<Rightarrow> real \<Rightarrow> bool" where
  "is_below v h = (case v of None \<Rightarrow> False | Some x \<Rightarrow> x < h)"

text \<open>
  \<open>np.where(left_mask & (intensity_ev < half_max))[0][-1]\<close> and
  \<open>np.where(right_mask & (intensity_ev < half_max))[0][0]\<close>.
\<close>

definition left_index :: "real option list \<Rightarrow> nat \<Rightarrow> real \<Rightarrow> nat result" where
  "left_index ev peak_idx_ev half_max =
     (case rev (filter (\<lambda>i. is_below (ev ! i) half_max) [0..<peak_idx_ev]) of
        [] \<Rightarrow> Inl IndexError
      | i # _ \<Rightarrow> Inr i)"

definition right_index :: "real option list \<Rightarrow> nat \<Rightarrow> real \<Rightarrow> nat result" where
  "right_index ev peak_idx_ev half_max =
     (case filter (\<lambda>i. is_below (ev ! i) half_max) [Suc peak_idx_ev..<length ev] of
        [] \<Rightarrow> Inl IndexError
      | i # _ \<Rightarrow> Inr i)"

text \<open>
  \<open>interp1d(x, y)(h)\<close> on two points: scipy sorts the points by \<open>x\<close>, raises
  \<open>ValueError\<close> for \<open>h\<close> outside their range, and interpolates linearly. The result is
  NaN when a coordinate is NaN or the two abscissae coincide.
\<close>

definition interp1d :: "real option \<times> real option \<Rightarrow> real option \<times> real option \<Rightarrow> real \<Rightarrow> real option result" where
  "interp1d p q h =
     (case (p, q) of
        ((Some xa, Some ya), (Some xb, Some yb)) \<Rightarrow>
          (let (x0, y0) = (if xa \<le> xb then (xa, ya) else (xb, yb));
               (x1, y1) = (if xa \<le> xb then (xb, yb) else (xa, ya))
           in if h < x0 \<or> x1 < h then Inl ValueError
              else if x0 = x1 then Inr None
              else Inr (Some (y0 + (y1 - y0) / (x1 - x0) * (h - x0))))
      | _ \<Rightarrow> Inr None)"

text \<open>
  The linewidth of one column: the \<open>try\<close> block of the source, with \<open>IndexError\<close> and
  \<open>ValueError\<close> caught and answered by NaN. With a NaN half-maximum every comparison is
  false and the first \<open>np.where\<close> is empty.
\<close>

definition fwhm :: "real option list \<Rightarrow> real option list \<Rightarrow> nat \<Rightarrow> real option" where
  "fwhm energies ev peak_idx_ev =
     (case ev ! peak_idx_ev of
        None \<Rightarrow> None
      | Some peak_ev \<Rightarrow>
          (let half_max = peak_ev / 2 in
           case left_index ev peak_idx_ev half_max of
             Inl _ \<Rightarrow> None
           | Inr left_idx \<Rightarrow>
          (case right_index ev peak_idx_ev half_max of
             Inl _ \<Rightarrow> None
           | Inr right_idx \<Rightarrow>
          (case interp1d (ev ! left_idx, energies ! left_idx)
                  (ev ! Suc left_idx, energies ! Suc left_idx) half_max of
             Inl _ \<Rightarrow> None
           | Inr e_left \<Rightarrow>
          (case interp1d (ev ! (right_idx - 1), energies ! (right_idx - 1))
                  (ev ! right_idx, energies ! right_idx) half_max of
             Inl _ \<Rightarrow> None
           | Inr e_right \<Rightarrow>
          (case (e_left, e_right) of
             (Some a, Some b) \<Rightarrow> Some \<bar>a - b\<bar>
           | _ \<Rightarrow> None))))))"

text \<open>The energy-space peak index of one column (\<open>peak_idx_ev\<close>).\<close>

definition peak_idx_ev :: "real option list \<Rightarrow> real list \<Rightarrow> nat result" where
  "peak_idx_ev wavelengths intensity = np_argmax (intensity_ev wavelengths intensity)"

text \<open>
  The noise filter: \<open>peak_int < intensity_threshold and float(timestamp) > time_threshold\<close>.
  Python's \<open>and\<close> parses the timestamp only when the first comparison holds.
\<close>

definition noise_gate :: "real \<Rightarrow> real \<Rightarrow> real \<Rightarrow> string \<Rightarrow> bool result" where
  "noise_gate intensity_threshold time_threshold peak_int ts =
     (if peak_int < intensity_threshold
      then (case py_float ts of Inl e \<Rightarrow> Inl e | Inr t \<Rightarrow> Inr (time_threshold < t))
      else Inr False)"

text \<open>One pass of the loop over the timestamp columns.\<close>

definition extract_column :: "real \<Rightarrow> real \<Rightarrow> real option list \<Rightarrow> string \<Rightarrow> real list \<Rightarrow> feature result" where
  "extract_column intensity_threshold time_threshold wavelengths ts intensity =
     (case np_argmax (map Some intensity) of
        Inl e \<Rightarrow> Inl e
      | Inr peak_idx \<Rightarrow>
          (let peak_int = intensity ! peak_idx;
               peak_wl = wavelengths ! peak_idx
           in case noise_gate intensity_threshold time_threshold peak_int ts of
                Inl e \<Rightarrow> Inl e
              | Inr True \<Rightarrow>
                  Inr \<lparr>timestamp = ts, max_intensity = peak_int,
                       peak_wavelength = None, fwhm_ev = None\<rparr>
              | Inr False \<Rightarrow>
                  (case peak_idx_ev wavelengths intensity of
                     Inl e \<Rightarrow> Inl e
                   | Inr pk \<Rightarrow>
                       Inr \<lparr>timestamp = ts, max_intensity = peak_int,
                            peak_wavelength = peak_wl,
                            fwhm_ev = fwhm (map energy wavelengths)
                                        (intensity_ev wavelengths intensity) pk\<rparr>)))"

text \<open>A loop that stops at the first exception.\<close>

fun collect :: "'a result list \<Rightarrow> 'a list result" where
  "collect [] = Inr []"
| "collect (Inl e # _) = Inl e"
| "collect (Inr x # r) = (case collect r of Inl e \<Rightarrow> Inl e | Inr xs \<Rightarrow> Inr (x # xs))"

text \<open>
  \<open>extract_spectral_features\<close> after the smoothed near-infrared file is read: the list
  \<open>results\<close>, or the exception that leaves the function.
\<close>

definition extract_features :: "real \<Rightarrow> real \<Rightarrow> string frame \<Rightarrow> feature list result" where
  "extract_features intensity_threshold time_threshold df =
     collect (map (\<lambda>j. extract_column intensity_threshold time_threshold (row_labels df)
                          (columns df ! j) (column df j))
                [0..<length (columns df)])"

section \<open>Cross-experiment aggregator\<close>

datatype metric = Max_intensity | Peak_wavelength | Fwhm_ev

definition metric_values :: "metric \<Rightarrow> feature list \<Rightarrow> real option list" where
  "metric_values m fs =
     (case m of
        Max_intensity \<Rightarrow> map (\<lambda>f. Some (max_intensity f)) fs
      | Peak_wavelength \<Rightarrow> map peak_wavelength fs
      | Fwhm_ev \<Rightarrow> map fwhm_ev fs)"

text \<open>
  Linear interpolation of the missing values of a series along given abscissae, as
  pandas does it with its default direction: a missing value between two valid ones is
  interpolated, a missing value after the last valid one takes its value, a missing
  value before the first valid one stays missing.
\<close>

fun next_valid :: "(real \<times> real option) list \<Rightarrow> (real \<times> real) option" where
  "next_valid [] = None"
| "next_valid ((x, Some v) # r) = Some (x, v)"
| "next_valid ((x, None) # r) = next_valid r"

fun fill_after :: "real \<times> real \<Rightarrow> (real \<times> real option) list \<Rightarrow> real list" where
  "fill_after p [] = []"
| "fill_after p ((x, Some v) # r) = v # fill_after (x, v) r"
| "fill_after p ((x, None) # r) =
     (case next_valid r of
        None \<Rightarrow> snd p
      | Some (x1, v1) \<Rightarrow> snd p + (v1 - snd p) / (x1 - fst p) * (x - fst p))
     # fill_after p r"

fun interpolate_xy :: "(real \<times> real option) list \<Rightarrow> real option list" where
  "interpolate_xy [] = []"
| "interpolate_xy ((x, None) # r) = None # interpolate_xy r"
| "interpolate_xy ((x, Some v) # r) = Some v # map Some (fill_after (x, v) r)"

text \<open>
  \<open>Series.interpolate()\<close>: the default method \<open>'linear'\<close> ignores the index and treats
  the values as equally spaced, so the abscissae are the positions \<open>0, 1, 2, \<dots>\<close>.
\<close>

definition interpolate :: "real option list \<Rightarrow> real option list" where
  "interpolate vs = interpolate_xy (zip (map real [0..<length vs]) vs)"

text \<open>
  The filling the specification words: linear interpolation over the timestamp axis,
  the abscissae being the timestamps of the rows.
\<close>

definition interpolate_over_timestamps :: "real list \<Rightarrow> real option list \<Rightarrow> real option list" where
  "interpolate_over_timestamps ts vs = interpolate_xy (zip ts vs)"

fun ffill_from :: "'a option \<Rightarrow> 'a option list \<Rightarrow> 'a option list" where
  "ffill_from prev [] = []"
| "ffill_from prev (Some v # r) = Some v # ffill_from (Some v) r"
| "ffill_from prev (None # r) = prev # ffill_from prev r"

definition ffill :: "'a option list \<Rightarrow> 'a option list" where
  "ffill vs = ffill_from None vs"

definition bfill :: "'a option list \<Rightarrow> 'a option list" where
  "bfill vs = rev (ffill (rev vs))"

definition fill_gaps :: "real option list \<Rightarrow> real option list" where
  "fill_gaps vs = ffill (bfill (interpolate vs))"

text \<open>
  \<open>savgol_filter(series, window_length, polyorder)\<close> on the filled series. A series that
  still has a missing value has only missing values (it had no valid one). What the
  library does with a series that holds NaN, once its checks of the window have passed,
  differs between its versions (an array of NaN in some, a \<open>ValueError\<close> in others); it
  is the parameter \<open>nan_filter\<close>.
\<close>

type_synonym nan_filter = "nat \<Rightarrow> nat \<Rightarrow> real option list \<Rightarrow> real option list result"

definition smooth_trace :: "sg_core \<Rightarrow> nan_filter \<Rightarrow> nat \<Rightarrow> nat \<Rightarrow> real option list \<Rightarrow> real option list result" where
  "smooth_trace core nan_filter window_length polyorder vs =
     (case those vs of
        Some xs \<Rightarrow>
          (case savgol_filter core window_length polyorder (length xs) [xs] of
             Inl e \<Rightarrow> Inl e
           | Inr ys \<Rightarrow> Inr (map Some (concat ys)))
      | None \<Rightarrow>
          (case savgol_filter core window_length polyorder (length vs) [] of
             Inl e \<Rightarrow> Inl e
           | Inr _ \<Rightarrow> nan_filter window_length polyorder vs))"

text \<open>A named series: \<open>pd.Series(smoothed, index=df.index, name=folder)\<close>.\<close>

record trace =
  trace_name :: string
  trace_index :: "string list"
  trace_values :: "real option list"

definition make_trace :: "sg_core \<Rightarrow> nan_filter \<Rightarrow> nat \<Rightarrow> nat \<Rightarrow> string \<Rightarrow> feature list \<Rightarrow> metric \<Rightarrow> trace result" where
  "make_trace core nan_filter window_length polyorder folder fs m =
     (case smooth_trace core nan_filter window_length polyorder (fill_gaps (metric_values m fs)) of
        Inl e \<Rightarrow> Inl e
      | Inr smoothed \<Rightarrow>
          if length smoothed = length fs
          then Inr \<lparr>trace_name = folder, trace_index = map timestamp fs, trace_values = smoothed\<rparr>
          else Inl ValueError)"

text \<open>
  \<open>pd.concat(series_list, axis=1)\<close>: one column per series, named after it, the rows
  being the union of the indexes (outer join), a cell without a value being NaN. Series
  with one common index are laid side by side; otherwise pandas reindexes, which raises
  \<open>InvalidIndexError\<close> for an index with duplicates. Timestamps are compared as the
  labels the feature files hold. The order of the rows of a union is not relied upon.
\<close>

record summary =
  summary_index :: "string list"
  summary_columns :: "(string \<times> real option list) list"

fun union_first :: "'a list \<Rightarrow> 'a list \<Rightarrow> 'a list" where
  "union_first acc [] = acc"
| "union_first acc (x # xs) = (if x \<in> set acc then union_first acc xs else union_first (acc @ [x]) xs)"

definition trace_at :: "trace \<Rightarrow> string \<Rightarrow> real option" where
  "trace_at s t = (case map_of (zip (trace_index s) (trace_values s)) t of None \<Rightarrow> None | Some v \<Rightarrow> v)"

definition pd_concat :: "trace list \<Rightarrow> summary result" where
  "pd_concat ss =
     (case ss of
        [] \<Rightarrow> Inl ValueError
      | s0 # _ \<Rightarrow>
          if list_all (\<lambda>s. trace_index s = trace_index s0) ss
          then Inr \<lparr>summary_index = trace_index s0,
                    summary_columns = map (\<lambda>s. (trace_name s, trace_values s)) ss\<rparr>
          else if list_all (\<lambda>s. distinct (trace_index s)) ss
          then (let u = union_first [] (concat (map trace_index ss))
                in Inr \<lparr>summary_index = u,
                        summary_columns = map (\<lambda>s. (trace_name s, map (trace_at s) u)) ss\<rparr>)
          else Inl InvalidIndexError)"

definition metrics :: "metric list" where
  "metrics = [Max_intensity, Peak_wavelength, Fwhm_ev]"

text \<open>
  The first loop of \<open>compile_experiment_traces\<close> over the feature tables that exist
  (folder name and table, in the order of \<open>folders\<close>): per folder the three smoothed
  series, in the order of the metrics; the first exception leaves the function.
\<close>

definition folder_traces :: "sg_core \<Rightarrow> nan_filter \<Rightarrow> nat \<Rightarrow> nat \<Rightarrow> string \<Rightarrow> feature list \<Rightarrow> trace list result" where
  "folder_traces core nan_filter window_length polyorder folder fs =
     collect (map (make_trace core nan_filter window_length polyorder folder fs) metrics)"

text \<open>
  The second loop: per metric the series of all folders, concatenated when there is
  one at least.
\<close>

definition save_summaries :: "trace list list \<Rightarrow> (metric \<times> summary) list result" where
  "save_summaries per_folder =
     (if per_folder = [] then Inr []
      else collect (map (\<lambda>k. case pd_concat (map (\<lambda>ts. ts ! k) per_folder) of
                               Inl e \<Rightarrow> Inl e
                             | Inr t \<Rightarrow> Inr (metrics ! k, t))
                      [0..<length metrics]))"

section \<open>The pipeline over the data directory\<close>

text \<open>
  A CSV file is what \<open>pd.read_csv\<close> makes of it: a table, or a parser error
  (\<open>Malformed\<close>: an empty or broken file), which is a \<open>ValueError\<close>.
\<close>

datatype 'a csv = Malformed | Table 'a

definition read_csv :: "'a csv \<Rightarrow> 'a result" where
  "read_csv f = (case f of Malformed \<Rightarrow> Inl ValueError | Table t \<Rightarrow> Inr t)"

text \<open>
  The tree of one run: the raw directory \<open>corrected_data\<close> with its entries in glob
  order, and the files the stages write (\<open>None\<close>: no such file).
\<close>

record run_dir =
  corrected_data :: "string frame csv directory"
  cleaned_nir :: "string frame csv option"
  cleaned_vis :: "string frame csv option"
  smoothed_nir :: "string frame csv option"
  smoothed_vis :: "string frame csv option"
  merged :: "string frame csv option"
  features :: "feature list csv option"

text \<open>
  The data directory: its CSV files that hold parameter tables (in glob order), its
  sub-directories (in the order of \<open>iterdir\<close>) and the summary files.
\<close>

record world =
  files :: "reaction_params list csv directory"
  runs :: "(string \<times> run_dir) list"
  summaries :: "(metric \<times> summary) list"

definition empty_run :: run_dir where
  "empty_run = \<lparr>corrected_data = [], cleaned_nir = None, cleaned_vis = None,
                 smoothed_nir = None, smoothed_vis = None, merged = None, features = None\<rparr>"

definition get_run :: "world \<Rightarrow> string \<Rightarrow> run_dir" where
  "get_run w folder = (case map_of (runs w) folder of None \<Rightarrow> empty_run | Some r \<Rightarrow> r)"

fun update_run :: "string \<Rightarrow> run_dir \<Rightarrow> (string \<times> run_dir) list \<Rightarrow> (string \<times> run_dir) list" where
  "update_run folder r [] = [(folder, r)]"
| "update_run folder r ((k, v) # rest) =
     (if k = folder then (k, r) # rest else (k, v) # update_run folder r rest)"

definition put_run :: "world \<Rightarrow> string \<Rightarrow> run_dir \<Rightarrow> world" where
  "put_run w folder r = w\<lparr>runs := update_run folder r (runs w)\<rparr>"

definition NIR_PREFIX :: string where
  "NIR_PREFIX = ''Emission_nir''"

definition VIS_PREFIX :: string where
  "VIS_PREFIX = ''Emission_vis''"

text \<open>\<open>str\<close> of an integer, as \<open>to_csv\<close> writes an integer column label.\<close>

fun digits_of :: "nat \<Rightarrow> string" where
  "digits_of n =
     (if n < 10 then [char_of (48 + n)] else digits_of (n div 10) @ [char_of (48 + n mod 10)])"

definition str_of_int :: "int \<Rightarrow> string" where
  "str_of_int i = (if i < 0 then CHR ''-'' # digits_of (nat (- i)) else digits_of (nat i))"

definition to_csv_labels :: "int frame \<Rightarrow> string frame" where
  "to_csv_labels df = \<lparr>columns = map str_of_int (columns df), rows = rows df\<rparr>"

text \<open>
  One pass of the loop of \<open>standardize_time_axis\<close> over the bands. A missing raw file
  (\<open>FileNotFoundError\<close>) and any other exception are caught and logged; the band is
  skipped.
\<close>

definition standardize_one :: "bool \<Rightarrow> int list \<Rightarrow> run_dir \<Rightarrow> run_dir" where
  "standardize_one is_vis time_points r =
     (case get_file_by_prefix (corrected_data r)
             ((if is_vis then VIS_PREFIX else NIR_PREFIX) @ ''_corrected'') of
        Inl _ \<Rightarrow> r
      | Inr (_, f) \<Rightarrow>
          (case read_csv f of
             Inl _ \<Rightarrow> r
           | Inr df \<Rightarrow>
               (let out = Some (Table (to_csv_labels (standardize_band is_vis time_points df)))
                in if is_vis then r\<lparr>cleaned_vis := out\<rparr> else r\<lparr>cleaned_nir := out\<rparr>)))"

definition standardize_time_axis :: "world \<Rightarrow> string \<Rightarrow> reaction_params list \<Rightarrow> world result" where
  "standardize_time_axis w folder reaction_params_df =
     (case time_axis folder reaction_params_df of
        Inl e \<Rightarrow> Inl e
      | Inr None \<Rightarrow> Inr w
      | Inr (Some time_points) \<Rightarrow>
          Inr (put_run w folder
                 (standardize_one True time_points
                    (standardize_one False time_points (get_run w folder)))))"

text \<open>
  \<open>apply_smoothing\<close>: per band, a missing cleaned file is skipped, and every exception
  (of the read, of the filter) is caught and logged.
\<close>

definition smooth_one :: "sg_core \<Rightarrow> nat \<Rightarrow> nat \<Rightarrow> string frame csv option \<Rightarrow> string frame csv option \<Rightarrow> string frame csv option" where
  "smooth_one core window_length polyorder input_file old_output =
     (case input_file of
        None \<Rightarrow> old_output
      | Some f \<Rightarrow>
          (case read_csv f of
             Inl _ \<Rightarrow> old_output
           | Inr df \<Rightarrow>
               (case apply_smoothing_frame core window_length polyorder df of
                  Inl _ \<Rightarrow> old_output
                | Inr df_smoothed \<Rightarrow> Some (Table df_smoothed))))"

definition apply_smoothing :: "sg_core \<Rightarrow> world \<Rightarrow> string \<Rightarrow> nat \<Rightarrow> nat \<Rightarrow> world result" where
  "apply_smoothing core w folder window_length polyorder =
     (let r = get_run w folder
      in Inr (put_run w folder
                (r\<lparr>smoothed_nir := smooth_one core window_length polyorder (cleaned_nir r) (smoothed_nir r),
                   smoothed_vis := smooth_one core window_length polyorder (cleaned_vis r) (smoothed_vis r)\<rparr>)))"

text \<open>
  \<open>merge_vis_nir_spectra\<close>: the whole body is one \<open>try\<close>; an exception is logged and
  the merged file is not written.
\<close>

definition merge_run :: "real \<Rightarrow> real \<Rightarrow> real \<Rightarrow> run_dir \<Rightarrow> run_dir" where
  "merge_run stitch_wavelength stitch_window min_signal_threshold r =
     (case (smoothed_nir r, smoothed_vis r) of
        (None, None) \<Rightarrow> r
      | (Some f_nir, None) \<Rightarrow>
          (case read_csv f_nir of Inl _ \<Rightarrow> r | Inr df \<Rightarrow> r\<lparr>merged := Some (Table df)\<rparr>)
      | (None, Some f_vis) \<Rightarrow>
          (case read_csv f_vis of Inl _ \<Rightarrow> r | Inr df \<Rightarrow> r\<lparr>merged := Some (Table df)\<rparr>)
      | (Some f_nir, Some f_vis) \<Rightarrow>
          (case read_csv f_nir of
             Inl _ \<Rightarrow> r
           | Inr df_nir \<Rightarrow>
               (case read_csv f_vis of
                  Inl _ \<Rightarrow> r
                | Inr df_vis \<Rightarrow>
                    r\<lparr>merged := Some (Table (merge_frames stitch_wavelength stitch_window
                                                 min_signal_threshold df_nir df_vis))\<rparr>)))"

definition merge_vis_nir_spectra :: "world \<Rightarrow> string \<Rightarrow> real \<Rightarrow> real \<Rightarrow> real \<Rightarrow> world result" where
  "merge_vis_nir_spectra w folder stitch_wavelength stitch_window min_signal_threshold =
     Inr (put_run w folder
            (merge_run stitch_wavelength stitch_window min_signal_threshold (get_run w folder)))"

text \<open>
  \<open>plot_reaction_heatmap\<close> reads the smoothed and merged files and writes images only;
  every exception is caught per plot. It changes none of the files of the model.
\<close>

definition plot_reaction_heatmap :: "world \<Rightarrow> string \<Rightarrow> world result" where
  "plot_reaction_heatmap w folder = Inr w"

text \<open>
  \<open>extract_spectral_features\<close>: no \<open>try\<close> around the read of the file nor around the
  loop over the columns.
\<close>

definition extract_spectral_features :: "world \<Rightarrow> string \<Rightarrow> real \<Rightarrow> real \<Rightarrow> world result" where
  "extract_spectral_features w folder intensity_threshold time_threshold =
     (let r = get_run w folder
      in case smoothed_nir r of
           None \<Rightarrow> Inr w
         | Some f \<Rightarrow>
             (case read_csv f of
                Inl e \<Rightarrow> Inl e
              | Inr df \<Rightarrow>
                  (case extract_features intensity_threshold time_threshold df of
                     Inl e \<Rightarrow> Inl e
                   | Inr results \<Rightarrow> Inr (put_run w folder (r\<lparr>features := Some (Table results)\<rparr>)))))"

text \<open>
  \<open>compile_experiment_traces\<close>: the folders without a feature file are skipped; no
  \<open>try\<close> anywhere.
\<close>

definition compile_folder :: "sg_core \<Rightarrow> nan_filter \<Rightarrow> nat \<Rightarrow> nat \<Rightarrow> world \<Rightarrow> string \<Rightarrow> trace list option result" where
  "compile_folder core nan_filter window_length polyorder w folder =
     (case features (get_run w folder) of
        None \<Rightarrow> Inr None
      | Some f \<Rightarrow>
          (case read_csv f of
             Inl e \<Rightarrow> Inl e
           | Inr df \<Rightarrow>
               (case folder_traces core nan_filter window_length polyorder folder df of
                  Inl e \<Rightarrow> Inl e
                | Inr ts \<Rightarrow> Inr (Some ts))))"

definition compile_experiment_traces :: "sg_core \<Rightarrow> nan_filter \<Rightarrow> world \<Rightarrow> string list \<Rightarrow> nat \<Rightarrow> nat \<Rightarrow> world result" where
  "compile_experiment_traces core nan_filter w folders window_length polyorder =
     (case collect (map (compile_folder core nan_filter window_length polyorder w) folders) of
        Inl e \<Rightarrow> Inl e
      | Inr per_folder \<Rightarrow>
          (case save_summaries (concat (map (\<lambda>t. case t of None \<Rightarrow> [] | Some ts \<Rightarrow> [ts]) per_folder)) of
             Inl e \<Rightarrow> Inl e
           | Inr tables \<Rightarrow> Inr (if tables = [] then w else w\<lparr>summaries := tables\<rparr>)))"

text \<open>
  The default arguments \<open>window_length = 11\<close> and \<open>polyorder = 2\<close> in the signatures of
  \<open>apply_smoothing\<close> and of \<open>compile_experiment_traces\<close>; \<open>main\<close> passes neither
  argument.
\<close>

definition apply_smoothing_defaults :: "nat \<times> nat" where
  "apply_smoothing_defaults = (11, 2)"

definition compile_defaults :: "nat \<times> nat" where
  "compile_defaults = (11, 2)"

text \<open>
  The loop of \<open>main\<close> over the reaction folders: the five stages in sequence, with the
  default arguments, and no \<open>try\<close> around any call.
\<close>

definition process_folder :: "sg_core \<Rightarrow> reaction_params list \<Rightarrow> world \<Rightarrow> string \<Rightarrow> world result" where
  "process_folder core reaction_params_df w folder =
     (case standardize_time_axis w folder reaction_params_df of
        Inl e \<Rightarrow> Inl e
      | Inr w1 \<Rightarrow>
     (case apply_smoothing core w1 folder
             (fst apply_smoothing_defaults) (snd apply_smoothing_defaults) of
        Inl e \<Rightarrow> Inl e
      | Inr w2 \<Rightarrow>
     (case merge_vis_nir_spectra w2 folder 930 10 50 of
        Inl e \<Rightarrow> Inl e
      | Inr w3 \<Rightarrow>
     (case plot_reaction_heatmap w3 folder of
        Inl e \<Rightarrow> Inl e
      | Inr w4 \<Rightarrow> extract_spectral_features w4 folder 50 100))))"

fun process_all :: "sg_core \<Rightarrow> reaction_params list \<Rightarrow> string list \<Rightarrow> world \<Rightarrow> world result" where
  "process_all core reaction_params_df [] w = Inr w"
| "process_all core reaction_params_df (folder # rest) w =
     (case process_folder core reaction_params_df w folder of
        Inl e \<Rightarrow> Inl e
      | Inr w' \<Rightarrow> process_all core reaction_params_df rest w')"

text \<open>
  \<open>main\<close>, for a data directory that exists: the reaction folders are the
  sub-directories whose name starts with a digit; without a parameter file the
  \<open>IndexError\<close> is caught and \<open>main\<close> returns; an exception of any later call leaves
  \<open>main\<close>.
\<close>

definition reaction_folders :: "world \<Rightarrow> string list" where
  "reaction_folders w =
     filter (\<lambda>name. case name of [] \<Rightarrow> False | c # _ \<Rightarrow> is_digit c) (map fst (runs w))"

definition main :: "sg_core \<Rightarrow> nan_filter \<Rightarrow> world \<Rightarrow> world result" where
  "main core nan_filter w =
     (case glob (files w) ''reaction_parameters'' of
        [] \<Rightarrow> Inr w
      | (_, param_file) # _ \<Rightarrow>
          (case read_csv param_file of
             Inl e \<Rightarrow> Inl e
           | Inr reaction_params_df \<Rightarrow>
               (case process_all core reaction_params_df (reaction_folders w) w of
                  Inl e \<Rightarrow> Inl e
                | Inr w' \<Rightarrow>
                    compile_experiment_traces core nan_filter w' (reaction_folders w)
                      (fst compile_defaults) (snd compile_defaults))))"

section \<open>Predicates of the specification\<close>

text \<open>
  A frame whose row labels are numbers (no NaN), unique and strictly increasing: the
  invariant the specification gives for a spectral frame.
\<close>

definition increasing_labels :: "'c frame \<Rightarrow> bool" where
  "increasing_labels df =
     (list_all (\<lambda>r. fst r \<noteq> None) (rows df) \<and> sorted_wrt (<) (map label_key (rows df)))"

text \<open>
  The runs that have a feature file when the aggregation starts, in the order of
  \<open>folders\<close>, and the timestamp labels of the feature table of a run.
\<close>

definition runs_with_features :: "world \<Rightarrow> string list \<Rightarrow> string list" where
  "runs_with_features w folders = filter (\<lambda>f. features (get_run w f) \<noteq> None) folders"

definition run_timestamps :: "world \<Rightarrow> string \<Rightarrow> string list" where
  "run_timestamps w f =
     (case features (get_run w f) of Some (Table fs) \<Rightarrow> map timestamp fs | _ \<Rightarrow> [])"

text \<open>
  A feature table as the pipeline produces it for a run: its timestamps are the labels
  of the leading time points of the axis that \<open>standardize_time_axis\<close> builds for the
  run from the parameter table (the cleaned files carry a prefix of that axis as their
  column labels, and the later stages keep the labels of the columns that both bands
  have).
\<close>

definition produced_timestamps :: "reaction_params list \<Rightarrow> string \<Rightarrow> feature list \<Rightarrow> bool" where
  "produced_timestamps table folder fs =
     (case time_axis folder table of
        Inr (Some time_points) \<Rightarrow>
          length fs \<le> length time_points \<and>
          map timestamp fs = map str_of_int (take (length fs) time_points)
      | _ \<Rightarrow> False)"

section \<open>Example data directories\<close>

text \<open>
  A data directory with a parameter table (a measurement every 50 seconds) in which two
  of three runs have a feature table. The first has five timestamps, a peak wavelength
  that the noise gate removed at 150 seconds, and widths that could not be determined
  at 0, 100 and 150 seconds; the second has three timestamps.
\<close>

definition summary_parameters :: "reaction_params list" where
  "summary_parameters =
     [\<lparr>reaction_id = 1, num_measurements = 250, frequency = 50\<rparr>,
      \<lparr>reaction_id = 2, num_measurements = 250, frequency = 50\<rparr>,
      \<lparr>reaction_id = 3, num_measurements = 150, frequency = 50\<rparr>]"

definition summary_features_a :: "feature list" where
  "summary_features_a =
     [\<lparr>timestamp = ''0'', max_intensity = 60, peak_wavelength = Some 900, fwhm_ev = None\<rparr>,
      \<lparr>timestamp = ''50'', max_intensity = 70, peak_wavelength = Some 905, fwhm_ev = Some (3 / 100)\<rparr>,
      \<lparr>timestamp = ''100'', max_intensity = 80, peak_wavelength = Some 910, fwhm_ev = None\<rparr>,
      \<lparr>timestamp = ''150'', max_intensity = 10, peak_wavelength = None, fwhm_ev = None\<rparr>,
      \<lparr>timestamp = ''200'', max_intensity = 90, peak_wavelength = Some 930, fwhm_ev = Some (6 / 100)\<rparr>]"

definition summary_features_c :: "feature list" where
  "summary_features_c =
     [\<lparr>timestamp = ''0'', max_intensity = 65, peak_wavelength = Some 915, fwhm_ev = Some (4 / 100)\<rparr>,
      \<lparr>timestamp = ''50'', max_intensity = 75, peak_wavelength = Some 920, fwhm_ev = None\<rparr>,
      \<lparr>timestamp = ''100'', max_intensity = 85, peak_wavelength = Some 925, fwhm_ev = None\<rparr>]"

definition summary_world :: world where
  "summary_world =
     \<lparr>files = [(''reaction_parameters.csv'', Table summary_parameters)],
      runs = [(''01_a'', empty_run\<lparr>features := Some (Table summary_features_a)\<rparr>),
              (''02_b'', empty_run),
              (''03_c'', empty_run\<lparr>features := Some (Table summary_features_c)\<rparr>)],
      summaries = []\<rparr>"

text \<open>
  A data directory with a parameter table and two runs. The first run holds nothing but
  a smoothed near-infrared file that is not a readable CSV (an empty file, say); the
  second holds a raw near-infrared file.
\<close>

definition example_parameters :: "reaction_params list" where
  "example_parameters =
     [\<lparr>reaction_id = 1, num_measurements = 3, frequency = 1\<rparr>,
      \<lparr>reaction_id = 2, num_measurements = 3, frequency = 1\<rparr>]"

definition malformed_world :: world where
  "malformed_world =
     \<lparr>files = [(''reaction_parameters.csv'', Table example_parameters)],
      runs = [(''01_a'', empty_run\<lparr>smoothed_nir := Some Malformed\<rparr>),
              (''02_b'', empty_run\<lparr>corrected_data :=
                 [(''Emission_nir_corrected.csv'',
                   Table \<lparr>columns = [''0'', ''1'', ''2''], rows = [(Some 900, [1, 2, 3])]\<rparr>)]\<rparr>)],
      summaries = []\<rparr>"

text \<open>
  A data directory with a parameter table and one run, whose feature table has three
  timestamps.
\<close>

definition short_world :: world where
  "short_world =
     \<lparr>files = [(''reaction_parameters.csv'', Table example_parameters)],
      runs = [(''01_a'', empty_run\<lparr>features := Some (Table
                 [\<lparr>timestamp = ''0'', max_intensity = 60, peak_wavelength = Some 900, fwhm_ev = None\<rparr>,
                  \<lparr>timestamp = ''1'', max_intensity = 70, peak_wavelength = Some 910, fwhm_ev = None\<rparr>,
                  \<lparr>timestamp = ''2'', max_intensity = 80, peak_wavelength = Some 920, fwhm_ev = None\<rparr>])\<rparr>)],
      summaries = []\<rparr>"

section \<open>Properties: file lookup\<close>

text \<open>
  C10. \<open>_get_file_by_prefix\<close> raises \<open>FileNotFoundError\<close> exactly when no entry of the
  directory matches \<open>prefix*.csv\<close>, raises nothing else, and otherwise returns the first
  match in glob order, whatever follows it: further matches are not looked at and are
  never an error.
\<close>

theorem get_file_by_prefix_spec:
  "(get_file_by_prefix dir prefix = Inl FileNotFoundError
      \<longleftrightarrow> (\<forall>x \<in> set dir. \<not> glob_match prefix (fst x))) \<and>
   (\<forall>e. get_file_by_prefix dir prefix = Inl e \<longrightarrow> e = FileNotFoundError) \<and>
   (\<forall>pre f post. dir = pre @ f # post \<and> glob_match prefix (fst f) \<and>
        (\<forall>x \<in> set pre. \<not> glob_match prefix (fst x))
      \<longrightarrow> get_file_by_prefix dir prefix = Inr f)"
proof (intro conjI allI impI)
  show "get_file_by_prefix dir prefix = Inl FileNotFoundError
      \<longleftrightarrow> (\<forall>x \<in> set dir. \<not> glob_match prefix (fst x))"
  proof -
    have "glob dir prefix = [] \<longleftrightarrow> (\<forall>x \<in> set dir. \<not> glob_match prefix (fst x))"
      by (auto simp: glob_def filter_empty_conv)
    then show ?thesis
      unfolding get_file_by_prefix_def by (cases "glob dir prefix") auto
  qed
next
  fix e assume "get_file_by_prefix dir prefix = Inl e"
  then show "e = FileNotFoundError"
    unfolding get_file_by_prefix_def by (auto split: list.splits)
next
  fix pre f post
  assume a: "dir = pre @ f # post \<and> glob_match prefix (fst f) \<and>
        (\<forall>x \<in> set pre. \<not> glob_match prefix (fst x))"
  then have "filter (\<lambda>(name, _). glob_match prefix name) pre = []"
    by (auto simp: filter_empty_conv)
  with a show "get_file_by_prefix dir prefix = Inr f"
    unfolding get_file_by_prefix_def glob_def by (auto simp: case_prod_beta)
qed

text \<open>
  Witness for C10: a directory with two matching files and one that does not match, and a
  directory without a match.
\<close>

theorem get_file_by_prefix_spec_witness:
  "get_file_by_prefix [(''Emission_nir_corrected_b.csv'', 1::nat), (''notes.txt'', 2),
        (''Emission_nir_corrected_a.csv'', 3)] ''Emission_nir_corrected''
     = Inr (''Emission_nir_corrected_b.csv'', 1) \<and>
   get_file_by_prefix [(''notes.txt'', 2::nat)] ''Emission_nir_corrected'' = Inl FileNotFoundError"
proof -
  have m: "glob_match ''Emission_nir_corrected'' ''Emission_nir_corrected_b.csv''"
    by (simp add: glob_match_def)
  have n: "\<not> glob_match ''Emission_nir_corrected'' ''notes.txt''"
    by (simp add: glob_match_def)
  from get_file_by_prefix_spec
         [of "[(''Emission_nir_corrected_b.csv'', 1::nat), (''notes.txt'', 2),
               (''Emission_nir_corrected_a.csv'', 3)]" "''Emission_nir_corrected''"]
  have "get_file_by_prefix [(''Emission_nir_corrected_b.csv'', 1::nat), (''notes.txt'', 2),
        (''Emission_nir_corrected_a.csv'', 3)] ''Emission_nir_corrected''
     = Inr (''Emission_nir_corrected_b.csv'', 1)"
    using m by (metis append_Nil empty_iff fst_conv list.set(1))
  moreover from get_file_by_prefix_spec [of "[(''notes.txt'', 2::nat)]" "''Emission_nir_corrected''"]
  have "get_file_by_prefix [(''notes.txt'', 2::nat)] ''Emission_nir_corrected'' = Inl FileNotFoundError"
    using n by simp
  ultimately show ?thesis by simp
qed

section \<open>Properties: time-axis standardizer\<close>

lemma int_div_less_mult:
  fixes a f k :: int
  assumes "0 < f" and "a div f < k"
  shows "a < k * f"
proof -
  have e: "f * (a div f) + a mod f = a" by simp
  have m: "a mod f < f" using assms(1) by simp
  have "f * (a div f + 1) \<le> f * k"
    using assms by (intro mult_left_mono) simp_all
  then have "f * (a div f) + f \<le> k * f" by (simp add: algebra_simps)
  with e m show ?thesis by linarith
qed

text \<open>
  C1, as the specification states it, fails: for a run found in the parameters table
  with 10 measurements and frequency 2 the time axis is \<open>0, 2, 4, 6, 8\<close>, which has 5
  elements, not 10.
\<close>

theorem time_axis_count_counterexample:
  "time_axis ''01_a'' [\<lparr>reaction_id = 1, num_measurements = 10, frequency = 2\<rparr>]
     = Inr (Some [0, 2, 4, 6, 8]) \<and>
   int (length [0, 2, 4, 6, 8 :: int])
     \<noteq> num_measurements \<lparr>reaction_id = 1, num_measurements = 10, frequency = 2\<rparr>"
  by (simp add: time_axis_def find_params_def lookup_params_def np_arange_def py_int_def
        split_first_def strip_def is_space_def is_digit_def nat_of_digits_def digit_val_def
        upt_rec)

text \<open>
  C1, amended. For a run whose reaction id is found in the parameters table, with a
  frequency of at least 1, the time axis is the sequence \<open>0, frequency, 2 * frequency,
  \<dots>\<close> of the multiples of the frequency below \<open>num_measurements\<close>: it has
  \<open>\<lceil>num_measurements / frequency\<rceil>\<close> elements (\<open>num_measurements\<close> of them when the
  frequency is 1) and is strictly increasing.
\<close>

theorem time_axis_spec:
  assumes "find_params folder table = Some p" and "1 \<le> frequency p"
  shows "\<exists>tp. time_axis folder table = Inr (Some tp) \<and>
           tp = map (\<lambda>i. int i * frequency p) [0..<length tp] \<and>
           length tp = nat \<lceil>real_of_int (num_measurements p) / real_of_int (frequency p)\<rceil> \<and>
           sorted_wrt (<) tp \<and>
           (\<forall>t \<in> set tp. 0 \<le> t \<and> t < num_measurements p) \<and>
           (frequency p = 1 \<longrightarrow> length tp = nat (num_measurements p))"
proof -
  let ?f = "frequency p" and ?N = "num_measurements p"
  let ?n = "nat (- ((- ?N) div ?f))"
  let ?tp = "map (\<lambda>i. int i * ?f) [0..<?n]"
  have f0: "0 < ?f" using assms(2) by simp
  have run: "time_axis folder table = Inr (Some ?tp)"
    using assms f0 by (simp add: time_axis_def np_arange_def)
  have inc: "sorted_wrt (<) ?tp"
    using f0 by (simp add: sorted_wrt_map sorted_wrt_iff_nth_less)
  have bound: "\<forall>t \<in> set ?tp. 0 \<le> t \<and> t < ?N"
  proof
    fix t assume "t \<in> set ?tp"
    then obtain i where i: "i < ?n" and t: "t = int i * ?f" by auto
    from i have "int i < - ((- ?N) div ?f)" by simp
    then have "(- ?N) div ?f < - int i" by simp
    then have "- ?N < (- int i) * ?f"
      using f0 by (rule int_div_less_mult [rotated])
    then show "0 \<le> t \<and> t < ?N" using t f0 by simp
  qed
  show ?thesis
  proof (intro exI [of _ ?tp] conjI)
    show "time_axis folder table = Inr (Some ?tp)" by (rule run)
    show "?tp = map (\<lambda>i. int i * ?f) [0..<length ?tp]" by simp
    show "length ?tp = nat \<lceil>real_of_int ?N / real_of_int ?f\<rceil>"
      by (simp add: ceiling_divide_eq_div)
    show "sorted_wrt (<) ?tp" by (rule inc)
    show "\<forall>t \<in> set ?tp. 0 \<le> t \<and> t < ?N" by (rule bound)
    show "?f = 1 \<longrightarrow> length ?tp = nat ?N" by simp
  qed
qed


text \<open>
  Witness for C1: the run \<open>01_a\<close> with 10 measurements at frequency 2.
\<close>

theorem time_axis_spec_witness:
  "find_params ''01_a'' [\<lparr>reaction_id = 1, num_measurements = 10, frequency = 2\<rparr>]
     = Some \<lparr>reaction_id = 1, num_measurements = 10, frequency = 2\<rparr> \<and>
   time_axis ''01_a'' [\<lparr>reaction_id = 1, num_measurements = 10, frequency = 2\<rparr>]
     = Inr (Some [0, 2, 4, 6, 8])"
proof -
  let ?p = "\<lparr>reaction_id = 1, num_measurements = 10, frequency = 2\<rparr>"
  have fp: "find_params ''01_a'' [?p] = Some ?p"
    by (simp add: find_params_def lookup_params_def py_int_def split_first_def strip_def
          is_space_def is_digit_def nat_of_digits_def digit_val_def)
  have c: "nat \<lceil>real_of_int 10 / real_of_int 2\<rceil> = 5" by simp
  have f: "1 \<le> frequency ?p" by simp
  from time_axis_spec [OF fp f] obtain tp where
    t: "time_axis ''01_a'' [?p] = Inr (Some tp)" and
    e: "tp = map (\<lambda>i. int i * frequency ?p) [0..<length tp]" and
    l: "length tp = nat \<lceil>real_of_int (num_measurements ?p) / real_of_int (frequency ?p)\<rceil>"
    by blast
  from l have l5: "length tp = 5" by simp
  have u: "[0..<5] = [0, 1, 2, 3, 4 :: nat]" by (simp add: upt_rec)
  have "tp = map (\<lambda>i. int i * 2) [0..<5]"
    by (subst e) (simp only: l5 reaction_params.simps)
  then have "tp = [0, 2, 4, 6, 8]" by (simp only: u) simp
  with t fp show ?thesis by simp
qed

lemma wf_vis_cutoff: "wf_frame df \<Longrightarrow> wf_frame (vis_cutoff df)"
  by (auto simp: wf_frame_def vis_cutoff_def list_all_iff)

text \<open>
  C5. For a raw frame with \<open>C\<close> columns and a time axis of length \<open>T\<close>, the cleaned frame
  has \<open>min C T\<close> columns, labelled by the first \<open>min C T\<close> time values in order, and every
  row keeps its first \<open>min C T\<close> cells (the earliest-acquired columns).
\<close>

theorem standardize_band_truncation:
  assumes "wf_frame df"
  shows "columns (standardize_band is_vis time_points df)
           = take (min (length (columns df)) (length time_points)) time_points \<and>
         length (columns (standardize_band is_vis time_points df))
           = min (length (columns df)) (length time_points) \<and>
         rows (standardize_band is_vis time_points df)
           = map (\<lambda>(w, vs). (w, take (min (length (columns df)) (length time_points)) vs))
               (rows (if is_vis then vis_cutoff df else df)) \<and>
         wf_frame (standardize_band is_vis time_points df)"
proof -
  define d where "d = (if is_vis then vis_cutoff df else df)"
  have wf: "wf_frame d" and c: "columns d = columns df"
    using assms by (simp_all add: d_def wf_vis_cutoff) (simp add: vis_cutoff_def)
  have same: "length (columns df) = length time_points \<Longrightarrow>
      map (\<lambda>(w, vs). (w, take (length time_points) vs)) (rows d) = rows d"
    using wf c by (auto simp: wf_frame_def list_all_iff intro!: map_idI)
  show ?thesis
    using same wf c unfolding standardize_band_def Let_def d_def [symmetric]
    by (auto simp: wf_frame_def list_all_iff min_def)
qed


text \<open>
  Witness for C5: three raw columns against a time axis of two points.
\<close>

theorem standardize_band_truncation_witness:
  "wf_frame \<lparr>columns = [''a'', ''b'', ''c''], rows = [(Some 900, [1, 2, 3])]\<rparr> \<and>
   standardize_band False [0, 5] \<lparr>columns = [''a'', ''b'', ''c''], rows = [(Some 900, [1, 2, 3])]\<rparr>
     = \<lparr>columns = [0, 5], rows = [(Some 900, [1, 2])]\<rparr>"
proof -
  let ?df = "\<lparr>columns = [''a'', ''b'', ''c''], rows = [(Some 900, [1, 2, 3 :: real])]\<rparr>"
  have wf: "wf_frame ?df" by (simp add: wf_frame_def)
  from standardize_band_truncation [OF wf, of False "[0, 5]"]
  have "columns (standardize_band False [0, 5] ?df) = [0, 5]"
    and "rows (standardize_band False [0, 5] ?df) = [(Some 900, [1, 2])]"
    by simp_all
  then have "standardize_band False [0, 5] ?df = \<lparr>columns = [0, 5], rows = [(Some 900, [1, 2])]\<rparr>"
    by (cases "standardize_band False [0, 5] ?df") simp
  with wf show ?thesis by simp
qed

section \<open>Properties: spectral smoother\<close>

text \<open>
  C4, as the specification states it, fails: the smoother rounds the row labels to one
  decimal, so a cleaned frame with the wavelength label 900.123 yields a smoothed frame
  with the label 900.1. (With window length 1 and polynomial order 0 the Savitzky-Golay
  filter is the identity.)
\<close>

theorem apply_smoothing_labels_counterexample:
  "apply_smoothing_frame (\<lambda>w p xs. xs) 1 0 \<lparr>columns = [''0''], rows = [(Some 900.123, [1])]\<rparr>
     = Inr \<lparr>columns = [''0''], rows = [(Some 900.1, [1])]\<rparr> \<and>
   row_labels \<lparr>columns = [''0''], rows = [(Some 900.1, [1])]\<rparr>
     \<noteq> row_labels \<lparr>columns = [''0''], rows = [(Some 900.123, [1])]\<rparr>"
  by (simp add: apply_smoothing_frame_def savgol_filter_def row_labels_def column_def
        np_round_def round_half_even_def Let_def)

text \<open>
  C4, amended. For every cleaned frame and every valid window not exceeding the row
  count (the filter returning as many values as it is given), the smoother returns a
  frame with the column labels of its input, as many rows, and the row labels of its
  input rounded to one decimal: identical to the input's wherever those already have at
  most one decimal.
\<close>

theorem apply_smoothing_labels:
  assumes core: "\<And>xs. length (core window_length polyorder xs) = length xs"
    and valid: "polyorder < window_length" "window_length \<le> length (rows df)"
  shows "\<exists>out. apply_smoothing_frame core window_length polyorder df = Inr out \<and>
           columns out = columns df \<and>
           row_labels out = map (map_option (np_round 1)) (row_labels df) \<and>
           length (rows out) = length (rows df) \<and>
           wf_frame out \<and>
           ((\<forall>l \<in> set (row_labels df). map_option (np_round 1) l = l)
              \<longrightarrow> row_labels out = row_labels df)"
proof -
  define n where "n = length (rows df)"
  define idx where "idx = map (map_option (np_round 1)) (row_labels df)"
  define sm where
    "sm = map (core window_length polyorder) (map (column df) [0..<length (columns df)])"
  define out where
    "out = \<lparr>columns = columns df,
             rows = map (\<lambda>i. (idx ! i, map (\<lambda>c. np_round 2 (c ! i)) sm)) [0..<n]\<rparr>"
  have sg: "savgol_filter core window_length polyorder n
              (map (column df) [0..<length (columns df)]) = Inr sm"
    using valid by (simp add: savgol_filter_def sm_def n_def)
  have shape: "list_all (\<lambda>c. length c = n) sm"
    by (simp add: list_all_iff core column_def sm_def n_def)
  have run: "apply_smoothing_frame core window_length polyorder df = Inr out"
    unfolding apply_smoothing_frame_def Let_def n_def [symmetric] idx_def [symmetric] sg
    using shape by (simp add: out_def)
  have len: "length idx = n" by (simp add: idx_def row_labels_def n_def)
  have "row_labels out = map (\<lambda>i. idx ! i) [0..<length idx]"
    by (simp add: row_labels_def comp_def out_def len)
  then have lab: "row_labels out = idx" by (simp only: map_nth)
  have wf: "wf_frame out"
    by (simp add: wf_frame_def list_all_iff out_def sm_def)
  have same: "(\<forall>l \<in> set (row_labels df). map_option (np_round 1) l = l) \<longrightarrow> idx = row_labels df"
    by (simp add: map_idI idx_def)
  show ?thesis
  proof (intro exI [of _ out] conjI)
    show "apply_smoothing_frame core window_length polyorder df = Inr out" by (rule run)
    show "columns out = columns df" by (simp add: out_def)
    show "row_labels out = map (map_option (np_round 1)) (row_labels df)"
      using lab by (simp only: idx_def)
    show "length (rows out) = length (rows df)" by (simp add: out_def n_def)
    show "wf_frame out" by (rule wf)
    show "(\<forall>l \<in> set (row_labels df). map_option (np_round 1) l = l)
              \<longrightarrow> row_labels out = row_labels df"
      using same by (simp only: lab)
  qed
qed

text \<open>
  Witness for C4: a label with one decimal is kept.
\<close>

theorem apply_smoothing_labels_witness:
  "apply_smoothing_frame (\<lambda>w p xs. xs) 1 0 \<lparr>columns = [''0''], rows = [(Some 900.1, [1])]\<rparr>
     = Inr \<lparr>columns = [''0''], rows = [(Some 900.1, [1])]\<rparr>"
proof -
  let ?df = "\<lparr>columns = [''0''], rows = [(Some 900.1, [1 :: real])]\<rparr>"
  have r: "np_round 1 900.1 = 900.1"
    by (simp add: np_round_def round_half_even_def Let_def)
  have "\<exists>out. apply_smoothing_frame (\<lambda>w p xs. xs) 1 0 ?df = Inr out \<and>
           columns out = columns ?df \<and>
           row_labels out = map (map_option (np_round 1)) (row_labels ?df) \<and>
           length (rows out) = length (rows ?df) \<and>
           wf_frame out \<and>
           ((\<forall>l \<in> set (row_labels ?df). map_option (np_round 1) l = l)
              \<longrightarrow> row_labels out = row_labels ?df)"
    by (rule apply_smoothing_labels) simp_all
  then obtain out where
    "apply_smoothing_frame (\<lambda>w p xs. xs) 1 0 ?df = Inr out" by blast
  moreover have "apply_smoothing_frame (\<lambda>w p xs. xs) 1 0 ?df = Inr ?df"
    by (simp add: apply_smoothing_frame_def savgol_filter_def row_labels_def column_def
          np_round_def round_half_even_def Let_def)
  ultimately show ?thesis by simp
qed

section \<open>Properties: band merger\<close>

lemma columns_select_rows: "columns (select_rows P df) = columns df"
  by (simp add: select_rows_def)

lemma columns_select_columns: "columns (select_columns cs df) = cs"
  by (simp add: select_columns_def)

lemma length_column_means: "length (column_means df) = length (columns df)"
  by (simp add: column_means_def)

lemma length_merge_factors:
  "length (merge_factors sw win thr df_nir df_vis) = length (common_columns df_nir df_vis)"
  by (simp add: merge_factors_def scaling_factors_def overlap_def aligned_vis_def aligned_nir_def
        columns_select_rows columns_select_columns length_column_means)

lemma merge_factors_nth:
  assumes "j < length (common_columns df_nir df_vis)"
  shows "merge_factors sw win thr df_nir df_vis ! j =
           scaling_factor thr
             (column_means (overlap sw win (aligned_vis df_nir df_vis)) ! j)
             (column_means (overlap sw win (aligned_nir df_nir df_vis)) ! j)"
  using assms
  by (simp add: merge_factors_def scaling_factors_def overlap_def aligned_vis_def aligned_nir_def
        columns_select_rows columns_select_columns length_column_means)

lemma select_columns_row_length:
  "r \<in> set (rows (select_columns cs df)) \<Longrightarrow> length (snd r) = length cs"
  by (auto simp: select_columns_def)

lemma column_multiply_one:
  assumes "j < length factors" and "factors ! j = 1"
    and "\<And>r. r \<in> set (rows df) \<Longrightarrow> j < length (snd r)"
  shows "column (multiply factors df) j = column df j"
  using assms by (auto simp: column_def multiply_def comp_def case_prod_beta)

text \<open>
  C6. For a shared timestamp column whose mean visible intensity in the overlap window
  does not exceed the minimum-signal threshold (an undefined mean does not), the scaling
  factor is exactly 1 and the visible values of the column are unchanged by the scaling;
  a factor that would be undefined or infinite (an undefined mean, a zero visible mean)
  is 1 as well.
\<close>

theorem merge_scaling_identity:
  assumes j: "j < length (common_columns df_nir df_vis)"
  shows "merge_factors sw win thr df_nir df_vis ! j =
           scaling_factor thr
             (column_means (overlap sw win (aligned_vis df_nir df_vis)) ! j)
             (column_means (overlap sw win (aligned_nir df_nir df_vis)) ! j) \<and>
         ((\<forall>v. column_means (overlap sw win (aligned_vis df_nir df_vis)) ! j = Some v \<longrightarrow> v \<le> thr)
            \<longrightarrow> merge_factors sw win thr df_nir df_vis ! j = 1 \<and>
                column (df_vis_scaled sw win thr df_nir df_vis) j
                  = column (aligned_vis df_nir df_vis) j) \<and>
         (column_means (overlap sw win (aligned_vis df_nir df_vis)) ! j = None \<or>
          column_means (overlap sw win (aligned_vis df_nir df_vis)) ! j = Some 0 \<or>
          column_means (overlap sw win (aligned_nir df_nir df_vis)) ! j = None
            \<longrightarrow> merge_factors sw win thr df_nir df_vis ! j = 1)"
proof (intro conjI impI)
  let ?vm = "column_means (overlap sw win (aligned_vis df_nir df_vis)) ! j"
  let ?nm = "column_means (overlap sw win (aligned_nir df_nir df_vis)) ! j"
  show f: "merge_factors sw win thr df_nir df_vis ! j = scaling_factor thr ?vm ?nm"
    by (rule merge_factors_nth [OF j])
  {
    assume low: "\<forall>v. ?vm = Some v \<longrightarrow> v \<le> thr"
    then have "scaling_factor thr ?vm ?nm = 1"
      by (cases ?vm) (auto simp: scaling_factor_def)
    with f show one: "merge_factors sw win thr df_nir df_vis ! j = 1" by simp
    have "column (multiply (merge_factors sw win thr df_nir df_vis) (aligned_vis df_nir df_vis)) j
            = column (aligned_vis df_nir df_vis) j"
    proof (rule column_multiply_one)
      show "j < length (merge_factors sw win thr df_nir df_vis)"
        using j by (simp add: length_merge_factors)
      show "merge_factors sw win thr df_nir df_vis ! j = 1" by (rule one)
      fix r assume "r \<in> set (rows (aligned_vis df_nir df_vis))"
      then show "j < length (snd r)"
        using j by (simp add: aligned_vis_def select_columns_row_length)
    qed
    then show "column (df_vis_scaled sw win thr df_nir df_vis) j
                 = column (aligned_vis df_nir df_vis) j"
      by (simp add: df_vis_scaled_def)
  }
  {
    assume "?vm = None \<or> ?vm = Some 0 \<or> ?nm = None"
    then have "scaling_factor thr ?vm ?nm = 1"
      by (auto simp: scaling_factor_def split: option.splits)
    with f show "merge_factors sw win thr df_nir df_vis ! j = 1" by simp
  }
qed


text \<open>
  Witness for C6: a mean visible intensity of 15 in the overlap window, below the
  threshold 50.
\<close>

theorem merge_scaling_identity_witness:
  "0 < length (common_columns
         \<lparr>columns = [''0''], rows = [(Some 925, [60]), (Some 935, [80])]\<rparr>
         \<lparr>columns = [''0''], rows = [(Some 920, [10]), (Some 925, [20])]\<rparr>) \<and>
   column_means (overlap 930 10 (aligned_vis
         \<lparr>columns = [''0''], rows = [(Some 925, [60]), (Some 935, [80])]\<rparr>
         \<lparr>columns = [''0''], rows = [(Some 920, [10]), (Some 925, [20])]\<rparr>)) ! 0 = Some 15 \<and>
   merge_factors 930 10 50
         \<lparr>columns = [''0''], rows = [(Some 925, [60]), (Some 935, [80])]\<rparr>
         \<lparr>columns = [''0''], rows = [(Some 920, [10]), (Some 925, [20])]\<rparr> ! 0 = 1"
proof -
  let ?nir = "\<lparr>columns = [''0''], rows = [(Some 925, [60 :: real]), (Some 935, [80])]\<rparr>"
  let ?vis = "\<lparr>columns = [''0''], rows = [(Some 920, [10 :: real]), (Some 925, [20])]\<rparr>"
  have j: "0 < length (common_columns ?nir ?vis)"
    by (simp add: common_columns_def)
  have vm: "column_means (overlap 930 10 (aligned_vis ?nir ?vis)) ! 0 = Some 15"
    by (simp add: column_means_def overlap_def aligned_vis_def select_rows_def select_columns_def
          common_columns_def label_sat_def column_def mean_def)
  from merge_scaling_identity [OF j, of 930 10 50] vm
  have "merge_factors 930 10 50 ?nir ?vis ! 0 = 1" by simp
  with j vm show ?thesis by simp
qed

lemma increasing_labels_fst:
  "increasing_labels df \<longleftrightarrow>
     list_all (\<lambda>w. w \<noteq> None) (map fst (rows df)) \<and>
     sorted_wrt (<) (map (\<lambda>w. case w of None \<Rightarrow> 0 | Some x \<Rightarrow> x) (map fst (rows df)))"
proof -
  have "label_key = (\<lambda>r. case fst r of None \<Rightarrow> 0 | Some x \<Rightarrow> x)"
    by (rule ext) (simp add: label_key_def)
  then show ?thesis
    by (simp add: increasing_labels_def list_all_iff comp_def)
qed

lemma increasing_labels_cong:
  "map fst (rows a) = map fst (rows b) \<Longrightarrow> increasing_labels a = increasing_labels b"
  by (simp only: increasing_labels_fst)

lemma fst_rows_select_columns: "map fst (rows (select_columns cs df)) = map fst (rows df)"
  by (simp add: select_columns_def comp_def case_prod_beta)

lemma fst_rows_multiply: "map fst (rows (multiply fs df)) = map fst (rows df)"
  by (simp add: multiply_def comp_def case_prod_beta)

lemma increasing_labels_select_rows:
  "increasing_labels df \<Longrightarrow> increasing_labels (select_rows P df)"
  by (auto simp: increasing_labels_def select_rows_def list_all_iff sorted_wrt_map
           intro: sorted_wrt_filter)

lemma select_rows_sat:
  "r \<in> set (rows (select_rows P df)) \<Longrightarrow> r \<in> set (rows df) \<and> (\<exists>x. fst r = Some x \<and> P x \<and> label_key r = x)"
  by (auto simp: select_rows_def label_sat_def label_key_def split: option.splits)

lemma select_rows_member:
  "r \<in> set (rows df) \<Longrightarrow> fst r \<noteq> None \<Longrightarrow> P (label_key r) \<Longrightarrow> r \<in> set (rows (select_rows P df))"
  by (auto simp: select_rows_def label_sat_def label_key_def split: option.splits)

lemma sort_index_sorted:
  "sorted_wrt (<) (map label_key rs) \<Longrightarrow> sort_index rs = rs"
  unfolding sort_index_def
  by (rule sort_key_id_if_sorted) (rule strict_sorted_imp_sorted)

lemma merge_stitch_rows:
  assumes nir: "increasing_labels df_nir" and vis: "increasing_labels df_vis"
  shows "rows (merge_frames sw win thr df_nir df_vis)
           = rows (select_rows (\<lambda>x. x < sw) (df_vis_scaled sw win thr df_nir df_vis)) @
             rows (select_rows (\<lambda>x. sw \<le> x) (aligned_nir df_nir df_vis)) \<and>
         increasing_labels (merge_frames sw win thr df_nir df_vis) \<and>
         (\<forall>r \<in> set (rows (merge_frames sw win thr df_nir df_vis)).
            (label_key r < sw \<longrightarrow> r \<in> set (rows (df_vis_scaled sw win thr df_nir df_vis))) \<and>
            (sw \<le> label_key r \<longrightarrow> r \<in> set (rows (aligned_nir df_nir df_vis)))) \<and>
         (\<forall>r \<in> set (rows (df_vis_scaled sw win thr df_nir df_vis)).
            label_key r < sw \<longrightarrow> r \<in> set (rows (merge_frames sw win thr df_nir df_vis))) \<and>
         (\<forall>r \<in> set (rows (aligned_nir df_nir df_vis)).
            sw \<le> label_key r \<longrightarrow> r \<in> set (rows (merge_frames sw win thr df_nir df_vis)))"
proof -
  define sv where "sv = df_vis_scaled sw win thr df_nir df_vis"
  define an where "an = aligned_nir df_nir df_vis"
  define pv where "pv = select_rows (\<lambda>x. x < sw) sv"
  define pn where "pn = select_rows (\<lambda>x. sw \<le> x) an"
  have inc_sv: "increasing_labels sv"
    using vis
    by (simp add: sv_def df_vis_scaled_def aligned_vis_def
          increasing_labels_cong [OF trans [OF fst_rows_multiply fst_rows_select_columns]])
  have inc_an: "increasing_labels an"
    using nir by (simp add: an_def aligned_nir_def increasing_labels_cong [OF fst_rows_select_columns])
  have inc_pv: "increasing_labels pv" and inc_pn: "increasing_labels pn"
    using inc_sv inc_an by (simp_all add: pv_def pn_def increasing_labels_select_rows)
  have lt: "\<forall>a \<in> set (rows pv). \<forall>b \<in> set (rows pn). label_key a < label_key b"
  proof (intro ballI)
    fix a b assume "a \<in> set (rows pv)" and "b \<in> set (rows pn)"
    then have "label_key a < sw" and "sw \<le> label_key b"
      using select_rows_sat [of a "\<lambda>x. x < sw" sv] select_rows_sat [of b "\<lambda>x. sw \<le> x" an]
      by (auto simp: pv_def pn_def)
    then show "label_key a < label_key b" by simp
  qed
  have sorted_all: "sorted_wrt (<) (map label_key (rows pv @ rows pn))"
    using inc_pv inc_pn lt by (simp add: increasing_labels_def sorted_wrt_append)
  have rows_eq: "rows (merge_frames sw win thr df_nir df_vis) = rows pv @ rows pn"
    using sort_index_sorted [OF sorted_all]
    by (simp add: merge_frames_def Let_def pv_def pn_def sv_def an_def)
  have inc_m: "increasing_labels (merge_frames sw win thr df_nir df_vis)"
    using sorted_all inc_pv inc_pn
    by (simp add: increasing_labels_def rows_eq)
  have fwd: "\<forall>r \<in> set (rows (merge_frames sw win thr df_nir df_vis)).
            (label_key r < sw \<longrightarrow> r \<in> set (rows sv)) \<and> (sw \<le> label_key r \<longrightarrow> r \<in> set (rows an))"
  proof
    fix r assume "r \<in> set (rows (merge_frames sw win thr df_nir df_vis))"
    then consider "r \<in> set (rows pv)" | "r \<in> set (rows pn)"
      by (auto simp: rows_eq)
    then show "(label_key r < sw \<longrightarrow> r \<in> set (rows sv)) \<and> (sw \<le> label_key r \<longrightarrow> r \<in> set (rows an))"
    proof cases
      case 1
      then show ?thesis using select_rows_sat [of r "\<lambda>x. x < sw" sv] by (auto simp: pv_def)
    next
      case 2
      then show ?thesis using select_rows_sat [of r "\<lambda>x. sw \<le> x" an] by (auto simp: pn_def)
    qed
  qed
  have some_sv: "\<And>r. r \<in> set (rows sv) \<Longrightarrow> fst r \<noteq> None"
    using inc_sv by (auto simp: increasing_labels_def list_all_iff)
  have some_an: "\<And>r. r \<in> set (rows an) \<Longrightarrow> fst r \<noteq> None"
    using inc_an by (auto simp: increasing_labels_def list_all_iff)
  have bv: "\<forall>r \<in> set (rows sv). label_key r < sw
              \<longrightarrow> r \<in> set (rows (merge_frames sw win thr df_nir df_vis))"
    using some_sv select_rows_member [of _ sv "\<lambda>x. x < sw"] by (auto simp: rows_eq pv_def)
  have bn: "\<forall>r \<in> set (rows an). sw \<le> label_key r
              \<longrightarrow> r \<in> set (rows (merge_frames sw win thr df_nir df_vis))"
    using some_an select_rows_member [of _ an "\<lambda>x. sw \<le> x"] by (auto simp: rows_eq pn_def)
  show ?thesis
    using rows_eq inc_m fwd bv bn unfolding pv_def pn_def sv_def an_def by blast
qed


lemma map_zip_nth:
  "length xs = length ys \<Longrightarrow> map f (zip xs ys) = map (\<lambda>j. f (xs ! j, ys ! j)) [0..<length xs]"
  by (rule nth_equalityI) auto

lemma map_by_nth: "map f xs = map (\<lambda>j. f (xs ! j)) [0..<length xs]"
  by (rule nth_equalityI) auto

lemma rows_aligned:
  "rows (select_columns cs df)
     = map (\<lambda>r. (fst r, map (\<lambda>j. snd r ! index_of (cs ! j) (columns df)) [0..<length cs])) (rows df)"
proof -
  have "map (\<lambda>c. vs ! index_of c (columns df)) cs
          = map (\<lambda>j. vs ! index_of (cs ! j) (columns df)) [0..<length cs]" for vs :: "real list"
    by (rule map_by_nth)
  then show ?thesis
    by (simp add: select_columns_def case_prod_beta)
qed

lemma rows_scaled:
  assumes "length factors = length cs"
  shows "rows (multiply factors (select_columns cs df))
     = map (\<lambda>r. (fst r, map (\<lambda>j. snd r ! index_of (cs ! j) (columns df) * factors ! j)
                           [0..<length cs])) (rows df)"
proof -
  have "map (\<lambda>(v, k). v * k) (zip (map (\<lambda>j. vs ! index_of (cs ! j) (columns df)) [0..<length cs]) factors)
          = map (\<lambda>j. vs ! index_of (cs ! j) (columns df) * factors ! j) [0..<length cs]"
    for vs :: "real list"
    using assms by (subst map_zip_nth) simp_all
  then show ?thesis
    by (simp add: multiply_def rows_aligned comp_def)
qed

lemma column_window:
  assumes "j < length cs"
  shows "column (select_rows P (select_columns cs df)) j
           = map (\<lambda>r. snd r ! index_of (cs ! j) (columns df))
               (filter (\<lambda>r. label_sat P (fst r)) (rows df))"
  using assms
  by (simp add: column_def select_rows_def rows_aligned filter_map comp_def case_prod_beta)

lemma scaling_factor_explicit:
  "scaling_factor thr (mean V) (mean N)
     = (if V \<noteq> [] \<and> N \<noteq> [] \<and> thr < sum_list V / real (length V) \<and>
           sum_list V / real (length V) \<noteq> 0
        then (sum_list N / real (length N)) / (sum_list V / real (length V)) else 1)"
  by (simp add: scaling_factor_def mean_def)

lemma merge_factors_explicit:
  assumes j: "j < length (common_columns df_nir df_vis)"
  shows "merge_factors sw win thr df_nir df_vis ! j
           = scaling_factor thr
               (mean (map (\<lambda>r. snd r ! index_of (common_columns df_nir df_vis ! j) (columns df_vis))
                        (filter (\<lambda>r. label_sat (\<lambda>x. sw - win \<le> x \<and> x \<le> sw + win) (fst r))
                           (rows df_vis))))
               (mean (map (\<lambda>r. snd r ! index_of (common_columns df_nir df_vis ! j) (columns df_nir))
                        (filter (\<lambda>r. label_sat (\<lambda>x. sw - win \<le> x \<and> x \<le> sw + win) (fst r))
                           (rows df_nir))))"
  using j
  by (simp add: merge_factors_nth column_means_def overlap_def aligned_vis_def aligned_nir_def
        column_window columns_select_rows columns_select_columns)


text \<open>
  C7. For smoothed band frames with unique, strictly increasing wavelength labels, the
  merged frame is the rows of the scaled visible frame below the stitch wavelength
  followed by the rows of the near-infrared frame at or above it, and the merged labels
  are strictly increasing (sorted, without duplicates). Every merged row below the
  stitch wavelength is a row of the visible frame with that label, each of its cells the
  visible value of the shared column times the scaling factor of that column; every
  merged row at or above the stitch wavelength is a row of the near-infrared frame with
  that label, its cells the near-infrared values of the shared columns; and every such
  row of either frame is in the merged frame. The scaling factor of a column is the
  quotient of the near-infrared and visible means over the rows of the overlap window
  when the visible mean exceeds the threshold and the quotient is defined, and 1
  otherwise.
\<close>

theorem merge_stitch_boundary:
  assumes nir: "increasing_labels df_nir" and vis: "increasing_labels df_vis"
  shows "rows (merge_frames sw win thr df_nir df_vis)
           = rows (select_rows (\<lambda>x. x < sw) (df_vis_scaled sw win thr df_nir df_vis)) @
             rows (select_rows (\<lambda>x. sw \<le> x) (aligned_nir df_nir df_vis)) \<and>
         increasing_labels (merge_frames sw win thr df_nir df_vis) \<and>
         (\<forall>r \<in> set (rows (merge_frames sw win thr df_nir df_vis)).
            (label_key r < sw \<longrightarrow> r \<in> set (rows (df_vis_scaled sw win thr df_nir df_vis))) \<and>
            (sw \<le> label_key r \<longrightarrow> r \<in> set (rows (aligned_nir df_nir df_vis)))) \<and>
         (\<forall>r \<in> set (rows (df_vis_scaled sw win thr df_nir df_vis)).
            label_key r < sw \<longrightarrow> r \<in> set (rows (merge_frames sw win thr df_nir df_vis))) \<and>
         (\<forall>r \<in> set (rows (aligned_nir df_nir df_vis)).
            sw \<le> label_key r \<longrightarrow> r \<in> set (rows (merge_frames sw win thr df_nir df_vis))) \<and>
         columns (merge_frames sw win thr df_nir df_vis) = common_columns df_nir df_vis \<and>
         (\<forall>r \<in> set (rows (merge_frames sw win thr df_nir df_vis)). label_key r < sw \<longrightarrow>
            (\<exists>v \<in> set (rows df_vis).
               r = (fst v, map (\<lambda>j. snd v ! index_of (common_columns df_nir df_vis ! j) (columns df_vis)
                                     * merge_factors sw win thr df_nir df_vis ! j)
                             [0..<length (common_columns df_nir df_vis)]))) \<and>
         (\<forall>r \<in> set (rows (merge_frames sw win thr df_nir df_vis)). sw \<le> label_key r \<longrightarrow>
            (\<exists>n \<in> set (rows df_nir).
               r = (fst n, map (\<lambda>j. snd n ! index_of (common_columns df_nir df_vis ! j) (columns df_nir))
                             [0..<length (common_columns df_nir df_vis)]))) \<and>
         (\<forall>v \<in> set (rows df_vis). label_key v < sw \<longrightarrow>
            (fst v, map (\<lambda>j. snd v ! index_of (common_columns df_nir df_vis ! j) (columns df_vis)
                               * merge_factors sw win thr df_nir df_vis ! j)
                       [0..<length (common_columns df_nir df_vis)])
              \<in> set (rows (merge_frames sw win thr df_nir df_vis))) \<and>
         (\<forall>n \<in> set (rows df_nir). sw \<le> label_key n \<longrightarrow>
            (fst n, map (\<lambda>j. snd n ! index_of (common_columns df_nir df_vis ! j) (columns df_nir))
                       [0..<length (common_columns df_nir df_vis)])
              \<in> set (rows (merge_frames sw win thr df_nir df_vis))) \<and>
         (\<forall>j < length (common_columns df_nir df_vis).
            merge_factors sw win thr df_nir df_vis ! j
              = scaling_factor thr
                  (mean (map (\<lambda>r. snd r ! index_of (common_columns df_nir df_vis ! j) (columns df_vis))
                           (filter (\<lambda>r. label_sat (\<lambda>x. sw - win \<le> x \<and> x \<le> sw + win) (fst r))
                              (rows df_vis))))
                  (mean (map (\<lambda>r. snd r ! index_of (common_columns df_nir df_vis ! j) (columns df_nir))
                           (filter (\<lambda>r. label_sat (\<lambda>x. sw - win \<le> x \<and> x \<le> sw + win) (fst r))
                              (rows df_nir))))) \<and>
         (\<forall>V N. scaling_factor thr (mean V) (mean N)
            = (if V \<noteq> [] \<and> N \<noteq> [] \<and> thr < sum_list V / real (length V) \<and>
                  sum_list V / real (length V) \<noteq> 0
               then (sum_list N / real (length N)) / (sum_list V / real (length V)) else 1))"
proof -
  define cs where "cs = common_columns df_nir df_vis"
  define fs where "fs = merge_factors sw win thr df_nir df_vis"
  define m where "m = merge_frames sw win thr df_nir df_vis"
  define sv where "sv = df_vis_scaled sw win thr df_nir df_vis"
  define an where "an = aligned_nir df_nir df_vis"
  define scaled where
    "scaled = (\<lambda>v :: real option \<times> real list.
                 (fst v, map (\<lambda>j. snd v ! index_of (cs ! j) (columns df_vis) * fs ! j) [0..<length cs]))"
  define plain where
    "plain = (\<lambda>n :: real option \<times> real list.
                 (fst n, map (\<lambda>j. snd n ! index_of (cs ! j) (columns df_nir)) [0..<length cs]))"
  note base = merge_stitch_rows [OF nir vis, of sw win thr, folded m_def sv_def an_def]
  have len: "length fs = length cs"
    by (simp add: fs_def cs_def length_merge_factors)
  have sv_rows: "rows sv = map scaled (rows df_vis)"
    unfolding sv_def df_vis_scaled_def aligned_vis_def scaled_def
    using rows_scaled [OF len, of df_vis] by (simp add: fs_def cs_def)
  have an_rows: "rows an = map plain (rows df_nir)"
    unfolding an_def aligned_nir_def plain_def by (simp add: rows_aligned cs_def)
  have key_scaled: "label_key (scaled v) = label_key v" for v
    by (simp add: scaled_def label_key_def)
  have key_plain: "label_key (plain n) = label_key n" for n
    by (simp add: plain_def label_key_def)
  have c6: "columns m = cs"
    by (simp add: m_def merge_frames_def Let_def cs_def)
  have c7: "\<forall>r \<in> set (rows m). label_key r < sw \<longrightarrow> (\<exists>v \<in> set (rows df_vis). r = scaled v)"
    using base sv_rows by auto
  have c8: "\<forall>r \<in> set (rows m). sw \<le> label_key r \<longrightarrow> (\<exists>n \<in> set (rows df_nir). r = plain n)"
    using base an_rows by auto
  have c9: "\<forall>v \<in> set (rows df_vis). label_key v < sw \<longrightarrow> scaled v \<in> set (rows m)"
  proof (intro ballI impI)
    fix v assume "v \<in> set (rows df_vis)" and "label_key v < sw"
    then have "scaled v \<in> set (rows sv)" and "label_key (scaled v) < sw"
      by (simp_all add: sv_rows key_scaled)
    with base show "scaled v \<in> set (rows m)" by blast
  qed
  have c10: "\<forall>n \<in> set (rows df_nir). sw \<le> label_key n \<longrightarrow> plain n \<in> set (rows m)"
  proof (intro ballI impI)
    fix n assume "n \<in> set (rows df_nir)" and "sw \<le> label_key n"
    then have "plain n \<in> set (rows an)" and "sw \<le> label_key (plain n)"
      by (simp_all add: an_rows key_plain)
    with base show "plain n \<in> set (rows m)" by blast
  qed
  have c11: "\<forall>j < length cs.
            fs ! j = scaling_factor thr
                  (mean (map (\<lambda>r. snd r ! index_of (cs ! j) (columns df_vis))
                           (filter (\<lambda>r. label_sat (\<lambda>x. sw - win \<le> x \<and> x \<le> sw + win) (fst r))
                              (rows df_vis))))
                  (mean (map (\<lambda>r. snd r ! index_of (cs ! j) (columns df_nir))
                           (filter (\<lambda>r. label_sat (\<lambda>x. sw - win \<le> x \<and> x \<le> sw + win) (fst r))
                              (rows df_nir))))"
    unfolding fs_def cs_def by (intro allI impI) (rule merge_factors_explicit)
  have c12: "\<forall>V N. scaling_factor thr (mean V) (mean N)
            = (if V \<noteq> [] \<and> N \<noteq> [] \<and> thr < sum_list V / real (length V) \<and>
                  sum_list V / real (length V) \<noteq> 0
               then (sum_list N / real (length N)) / (sum_list V / real (length V)) else 1)"
    by (intro allI) (rule scaling_factor_explicit)
  from base c6 c7 c8 c9 c10 c11 c12 show ?thesis
    unfolding scaled_def plain_def m_def sv_def an_def cs_def fs_def by (intro conjI) blast+
qed

text \<open>
  Witness for C7: two visible rows below 930 nm, scaled by the factor 70 / 150 of the
  overlap window, and one near-infrared row above it.
\<close>

theorem merge_stitch_boundary_witness:
  "increasing_labels \<lparr>columns = [''0''], rows = [(Some 925, [60]), (Some 935, [80])]\<rparr> \<and>
   increasing_labels \<lparr>columns = [''0''], rows = [(Some 920, [100]), (Some 925, [200])]\<rparr> \<and>
   merge_factors 930 10 50
           \<lparr>columns = [''0''], rows = [(Some 925, [60]), (Some 935, [80])]\<rparr>
           \<lparr>columns = [''0''], rows = [(Some 920, [100]), (Some 925, [200])]\<rparr> = [7 / 15] \<and>
   rows (merge_frames 930 10 50
           \<lparr>columns = [''0''], rows = [(Some 925, [60]), (Some 935, [80])]\<rparr>
           \<lparr>columns = [''0''], rows = [(Some 920, [100]), (Some 925, [200])]\<rparr>)
     = [(Some 920, [140 / 3]), (Some 925, [280 / 3]), (Some 935, [80])]"
proof -
  let ?nir = "\<lparr>columns = [''0''], rows = [(Some 925, [60 :: real]), (Some 935, [80])]\<rparr>"
  let ?vis = "\<lparr>columns = [''0''], rows = [(Some 920, [100 :: real]), (Some 925, [200])]\<rparr>"
  have n: "increasing_labels ?nir" and v: "increasing_labels ?vis"
    by (simp_all add: increasing_labels_def label_key_def)
  have f: "merge_factors 930 10 50 ?nir ?vis = [7 / 15]"
    by (simp add: merge_factors_def scaling_factors_def scaling_factor_def
          column_means_def overlap_def aligned_vis_def aligned_nir_def
          select_rows_def select_columns_def common_columns_def label_sat_def column_def mean_def)
  have pv: "rows (select_rows (\<lambda>x. x < 930) (df_vis_scaled 930 10 50 ?nir ?vis))
              = [(Some 920, [140 / 3]), (Some 925, [280 / 3])]"
    unfolding df_vis_scaled_def f
    by (simp add: multiply_def aligned_vis_def select_rows_def select_columns_def
          common_columns_def label_sat_def)
  have pn: "rows (select_rows (\<lambda>x. 930 \<le> x) (aligned_nir ?nir ?vis)) = [(Some 935, [80])]"
    by (simp add: aligned_nir_def select_rows_def select_columns_def common_columns_def
          label_sat_def)
  from merge_stitch_boundary [OF n v, of 930 10 50]
  have "rows (merge_frames 930 10 50 ?nir ?vis)
          = rows (select_rows (\<lambda>x. x < 930) (df_vis_scaled 930 10 50 ?nir ?vis)) @
            rows (select_rows (\<lambda>x. 930 \<le> x) (aligned_nir ?nir ?vis))"
    by (rule conjunct1)
  then have "rows (merge_frames 930 10 50 ?nir ?vis)
               = [(Some 920, [140 / 3]), (Some 925, [280 / 3]), (Some 935, [80])]"
    by (simp only: pv pn append.simps)
  with n v f show ?thesis by simp
qed

section \<open>Properties: feature extractor\<close>

lemma argmax_from_spec:
  "(argmax_from bi bv i (map Some r) = bi \<and> (\<forall>y \<in> set r. y \<le> bv)) \<or>
   (i \<le> argmax_from bi bv i (map Some r) \<and> argmax_from bi bv i (map Some r) < i + length r \<and>
    bv < r ! (argmax_from bi bv i (map Some r) - i) \<and>
    (\<forall>y \<in> set r. y \<le> r ! (argmax_from bi bv i (map Some r) - i)))"
proof (induction r arbitrary: bi bv i)
  case Nil
  then show ?case by simp
next
  case (Cons x r)
  show ?case
  proof (cases "bv < x")
    case True
    from Cons.IH [of i x "Suc i"] True show ?thesis
      by (auto simp: nth_Cons' Suc_diff_le)
  next
    case False
    from Cons.IH [of bi bv "Suc i"] False show ?thesis
      by (auto simp: nth_Cons' Suc_diff_le)
  qed
qed

lemma np_argmax_Max:
  assumes "xs \<noteq> []"
  shows "\<exists>k. np_argmax (map Some xs) = Inr k \<and> k < length xs \<and> xs ! k = Max (set xs)"
proof -
  from assms obtain x r where xs: "xs = x # r" by (cases xs) auto
  let ?k = "argmax_from 0 x 1 (map Some r)"
  have run: "np_argmax (map Some xs) = Inr ?k" by (simp add: np_argmax_def xs)
  from argmax_from_spec [of 0 x 1 r]
  have "?k < length xs \<and> xs ! ?k \<in> set xs \<and> (\<forall>y \<in> set xs. y \<le> xs ! ?k)"
    by (auto simp: xs nth_Cons')
  then have "?k < length xs \<and> xs ! ?k = Max (set xs)"
    by (metis List.finite_set Max_eqI)
  with run show ?thesis by blast
qed


lemma collect_nth:
  "collect rs = Inr xs \<Longrightarrow> j < length rs \<Longrightarrow> rs ! j = Inr (xs ! j)"
proof (induction rs arbitrary: xs j)
  case Nil
  then show ?case by simp
next
  case (Cons r rs)
  then show ?case
    by (cases r; cases "collect rs"; cases j) auto
qed

text \<open>
  C8. For a timestamp column whose raw wavelength-space peak intensity (the maximum of
  the column) is strictly below the intensity threshold and whose timestamp strictly
  exceeds the time threshold, the pass over that column returns the record with that
  peak intensity as \<open>max_intensity\<close> and with absent peak wavelength and linewidth,
  whatever the wavelengths are (the energy-space analysis has no part in it); it is the
  record emitted for the column whenever the extraction emits its records.
\<close>

theorem noise_gate_record:
  assumes j: "j < length (columns df)"
    and ne: "column df j \<noteq> []"
    and low: "Max (set (column df j)) < intensity_threshold"
    and ts: "py_float (columns df ! j) = Inr t"
    and late: "time_threshold < t"
  shows "(\<forall>wavelengths.
            extract_column intensity_threshold time_threshold wavelengths (columns df ! j) (column df j)
              = Inr \<lparr>timestamp = columns df ! j, max_intensity = Max (set (column df j)),
                     peak_wavelength = None, fwhm_ev = None\<rparr>) \<and>
         (\<forall>results. extract_features intensity_threshold time_threshold df = Inr results
            \<longrightarrow> results ! j
                  = \<lparr>timestamp = columns df ! j, max_intensity = Max (set (column df j)),
                      peak_wavelength = None, fwhm_ev = None\<rparr>)"
proof -
  let ?rec = "\<lparr>timestamp = columns df ! j, max_intensity = Max (set (column df j)),
                peak_wavelength = None, fwhm_ev = None\<rparr>"
  from np_argmax_Max [OF ne] obtain k where
    k: "np_argmax (map Some (column df j)) = Inr k" and
    m: "column df j ! k = Max (set (column df j))" by blast
  have gate: "noise_gate intensity_threshold time_threshold (Max (set (column df j))) (columns df ! j)
                = Inr True"
    using low ts late by (simp add: noise_gate_def)
  have col: "extract_column intensity_threshold time_threshold wavelengths (columns df ! j) (column df j)
               = Inr ?rec" for wavelengths
    by (simp add: extract_column_def Let_def k m gate)
  have "results ! j = ?rec"
    if "extract_features intensity_threshold time_threshold df = Inr results" for results
  proof -
    let ?rs = "map (\<lambda>j. extract_column intensity_threshold time_threshold (row_labels df)
                          (columns df ! j) (column df j)) [0..<length (columns df)]"
    have c: "collect ?rs = Inr results"
      using that by (simp only: extract_features_def)
    have l: "j < length ?rs" using j by simp
    have "?rs ! j = Inr (results ! j)" by (rule collect_nth [OF c l])
    then have "extract_column intensity_threshold time_threshold (row_labels df) (columns df ! j) (column df j)
            = Inr (results ! j)"
      using j by simp
    with col [of "row_labels df"] show ?thesis by simp
  qed
  with col show ?thesis by blast
qed

text \<open>
  Witness for C8: a peak of 20 at timestamp 150.
\<close>

theorem noise_gate_record_witness:
  "extract_features 50 100 \<lparr>columns = [''150''], rows = [(Some 900, [10]), (Some 910, [20])]\<rparr>
     = Inr [\<lparr>timestamp = ''150'', max_intensity = 20, peak_wavelength = None, fwhm_ev = None\<rparr>]"
proof -
  let ?df = "\<lparr>columns = [''150''], rows = [(Some 900, [10 :: real]), (Some 910, [20])]\<rparr>"
  have c: "column ?df 0 = [10, 20]" by (simp add: column_def)
  have t: "py_float (columns ?df ! 0) = Inr 150"
    by (simp add: py_float_def strip_def is_space_def is_digit_def nat_of_digits_def digit_val_def)
  have "extract_column 50 100 (row_labels ?df) (columns ?df ! 0) (column ?df 0)
          = Inr \<lparr>timestamp = columns ?df ! 0, max_intensity = Max (set (column ?df 0)),
                 peak_wavelength = None, fwhm_ev = None\<rparr>"
    using noise_gate_record [of 0 ?df 50 150 100] t by (simp add: c)
  then show ?thesis
    by (simp add: extract_features_def c)
qed

lemma example_intensity_ev:
  "intensity_ev [Some 900, Some 910, Some 920, Some 930, Some 940] [10, 50, 100, 50, 10]
     = [Some (810000000000 / 123984193), Some (4140500000000 / 123984193),
        Some (8464000000000 / 123984193), Some (4324500000000 / 123984193),
        Some (883600000000 / 123984193)]"
  by (simp add: intensity_ev_def energy_def HC_CONST_def power2_eq_square)

text \<open>
  C3, as the specification states it, fails: on the example the energy-space peak index
  is 2, the wavelength-space peak index; the Jacobian does not shift it.
\<close>

theorem example_peak_shift_counterexample:
  "np_argmax (map Some [10, 50, 100, 50, 10]) = Inr 2 \<and>
   peak_idx_ev [Some 900, Some 910, Some 920, Some 930, Some 940] [10, 50, 100, 50, 10] = Inr 2"
  by (simp add: np_argmax_def peak_idx_ev_def example_intensity_ev)

text \<open>
  C3, amended. On the near-infrared wavelengths 900, 910, 920, 930, 940 with the single
  timestamp "5" and the intensities 10, 50, 100, 50, 10 the extraction emits one record,
  with the wavelength-space peak at 920 nm and intensity 100; the energy-space peak
  index recomputed after the Jacobian transformation is 2, equal to the wavelength-space
  peak index (no shift).
\<close>

theorem example_peak:
  "(\<exists>r. extract_features 50 100
           \<lparr>columns = [''5''],
            rows = [(Some 900, [10]), (Some 910, [50]), (Some 920, [100]), (Some 930, [50]),
                    (Some 940, [10])]\<rparr> = Inr [r] \<and>
         timestamp r = ''5'' \<and> max_intensity r = 100 \<and> peak_wavelength r = Some 920) \<and>
   np_argmax (map Some [10, 50, 100, 50, 10]) = Inr 2 \<and>
   peak_idx_ev [Some 900, Some 910, Some 920, Some 930, Some 940] [10, 50, 100, 50, 10] = Inr 2"
proof -
  have a: "np_argmax (map Some [10, 50, 100, 50, 10]) = Inr 2"
    by (simp add: np_argmax_def)
  have p: "peak_idx_ev [Some 900, Some 910, Some 920, Some 930, Some 940] [10, 50, 100, 50, 10] = Inr 2"
    by (simp add: np_argmax_def peak_idx_ev_def example_intensity_ev)
  have a2: "np_argmax [Some 10, Some 50, Some 100, Some 50, Some 10] = Inr 2"
    using a by simp
  have g: "noise_gate 50 100 100 ''5'' = Inr False"
    by (simp add: noise_gate_def)
  have col: "extract_column 50 100 [Some 900, Some 910, Some 920, Some 930, Some 940] ''5''
               [10, 50, 100, 50, 10]
          = Inr \<lparr>timestamp = ''5'', max_intensity = 100, peak_wavelength = Some 920,
                  fwhm_ev = fwhm (map energy [Some 900, Some 910, Some 920, Some 930, Some 940])
                              (intensity_ev [Some 900, Some 910, Some 920, Some 930, Some 940]
                                 [10, 50, 100, 50, 10]) 2\<rparr>"
    unfolding extract_column_def by (simp add: a2 p g)
  have "extract_features 50 100
           \<lparr>columns = [''5''],
            rows = [(Some 900, [10]), (Some 910, [50]), (Some 920, [100]), (Some 930, [50]),
                    (Some 940, [10])]\<rparr>
          = Inr [\<lparr>timestamp = ''5'', max_intensity = 100, peak_wavelength = Some 920,
                  fwhm_ev = fwhm (map energy [Some 900, Some 910, Some 920, Some 930, Some 940])
                              (intensity_ev [Some 900, Some 910, Some 920, Some 930, Some 940]
                                 [10, 50, 100, 50, 10]) 2\<rparr>]"
    unfolding extract_features_def by (simp add: column_def row_labels_def col)
  with a p show ?thesis by simp
qed

text \<open>
  Witness for C3: the two peak indices of the example agree.
\<close>

theorem example_peak_witness:
  "peak_idx_ev [Some 900, Some 910, Some 920, Some 930, Some 940] [10, 50, 100, 50, 10]
     = np_argmax (map Some [10, 50, 100, 50, 10])"
  using example_peak by simp

section \<open>Properties: cross-experiment aggregator\<close>

lemma digit_chars:
  "list_all (\<lambda>k. is_digit (char_of (48 + k)) \<and> digit_val (char_of (48 + k)) = k \<and>
                   \<not> is_space (char_of (48 + k)) \<and>
                   char_of (48 + k) \<noteq> CHR ''-'' \<and> char_of (48 + k) \<noteq> CHR ''+'')
     [0..<10]"
  by code_simp

lemma digit_char:
  assumes "k < 10"
  shows "is_digit (char_of (48 + k))" and "digit_val (char_of (48 + k)) = k"
    and "\<not> is_space (char_of (48 + k))"
    and "char_of (48 + k) \<noteq> CHR ''-''" and "char_of (48 + k) \<noteq> CHR ''+''"
proof -
  from assms have "k \<in> set [0..<10]" by simp
  with digit_chars
  have "is_digit (char_of (48 + k)) \<and> digit_val (char_of (48 + k)) = k \<and>
      \<not> is_space (char_of (48 + k)) \<and>
      char_of (48 + k) \<noteq> CHR ''-'' \<and> char_of (48 + k) \<noteq> CHR ''+''"
    unfolding list_all_iff by blast
  then show "is_digit (char_of (48 + k))" and "digit_val (char_of (48 + k)) = k"
    and "\<not> is_space (char_of (48 + k))"
    and "char_of (48 + k) \<noteq> CHR ''-''" and "char_of (48 + k) \<noteq> CHR ''+''"
    by simp_all
qed

lemma digits_of_props:
  "digits_of n \<noteq> [] \<and> list_all is_digit (digits_of n) \<and> nat_of_digits (digits_of n) = n"
proof (induction n rule: digits_of.induct)
  case (1 n)
  show ?case
  proof (cases "n < 10")
    case True
    then show ?thesis
      by (subst (1 2 3) digits_of.simps) (simp add: digit_char nat_of_digits_def)
  next
    case False
    have m: "n mod 10 < 10" by simp
    from False 1 have ih: "digits_of (n div 10) \<noteq> []" "list_all is_digit (digits_of (n div 10))"
      "nat_of_digits (digits_of (n div 10)) = n div 10" by simp_all
    have "nat_of_digits (digits_of (n div 10) @ [char_of (48 + n mod 10)]) = 10 * (n div 10) + n mod 10"
      using ih(3) by (simp add: nat_of_digits_def digit_char(2) [OF m])
    with False ih show ?thesis
      by (subst (1 2 3) digits_of.simps) (simp add: digit_char(1) [OF m])
  qed
qed


lemma is_digit_plain: "is_digit c \<Longrightarrow> \<not> is_space c \<and> c \<noteq> CHR ''-'' \<and> c \<noteq> CHR ''+''"
  by (auto simp: is_digit_def is_space_def)

lemma strip_plain: "\<forall>c \<in> set s. \<not> is_space c \<Longrightarrow> strip s = s"
proof -
  assume a: "\<forall>c \<in> set s. \<not> is_space c"
  have d: "dropWhile is_space xs = xs" if "\<forall>c \<in> set xs. \<not> is_space c" for xs
    using that by (cases xs) auto
  show ?thesis using a by (simp add: strip_def d)
qed

lemma py_float_digits:
  assumes "ds \<noteq> []" and "list_all is_digit ds"
  shows "py_float ds = Inr (real (nat_of_digits ds))"
    and "py_float (CHR ''-'' # ds) = Inr (- real (nat_of_digits ds))"
proof -
  from assms obtain c r where ds: "ds = c # r" by (cases ds) auto
  have dig: "\<forall>x \<in> set ds. is_digit x" using assms(2) by (simp add: list_all_iff)
  then have c: "is_digit c" by (simp add: ds)
  have s1: "strip ds = ds"
    using dig is_digit_plain by (intro strip_plain) blast
  have s2: "strip (CHR ''-'' # ds) = CHR ''-'' # ds"
    using dig is_digit_plain by (intro strip_plain) (auto simp: is_space_def)
  have tw: "takeWhile is_digit ds = ds" and dw: "dropWhile is_digit ds = []"
    using dig by (simp_all add: takeWhile_eq_all_conv)
  have z: "nat_of_digits [] = 0" by (simp add: nat_of_digits_def)
  have sign: "(case ds of [] \<Rightarrow> (False, ds)
               | c # r \<Rightarrow> if c = CHR ''-'' then (True, r)
                          else if c = CHR ''+'' then (False, r) else (False, ds)) = (False, ds)"
    using is_digit_plain [OF c] by (simp add: ds)
  show "py_float ds = Inr (real (nat_of_digits ds))"
    unfolding py_float_def s1 Let_def sign using assms(1) by (simp add: tw dw z)
  show "py_float (CHR ''-'' # ds) = Inr (- real (nat_of_digits ds))"
    unfolding py_float_def s2 Let_def using assms(1) by (simp add: tw dw z)
qed

lemma py_float_str_of_int: "py_float (str_of_int i) = Inr (real_of_int i)"
proof (cases "i < 0")
  case True
  with py_float_digits(2) [of "digits_of (nat (- i))"] digits_of_props [of "nat (- i)"]
  show ?thesis by (simp add: str_of_int_def)
next
  case False
  with py_float_digits(1) [of "digits_of (nat i)"] digits_of_props [of "nat i"]
  show ?thesis by (simp add: str_of_int_def)
qed

lemma str_of_int_inj: "str_of_int a = str_of_int b \<Longrightarrow> a = b"
proof -
  assume "str_of_int a = str_of_int b"
  then have "py_float (str_of_int a) = py_float (str_of_int b)" by simp
  then show "a = b" by (simp add: py_float_str_of_int)
qed

lemma next_valid_affine:
  "next_valid (map (\<lambda>(x, v). (a * x + b, v)) l)
     = map_option (\<lambda>(x, v). (a * x + b, v)) (next_valid l)"
  by (induction l rule: next_valid.induct) simp_all

lemma fill_after_affine:
  assumes "a \<noteq> 0"
  shows "fill_after (a * x0 + b, v0) (map (\<lambda>(x, v). (a * x + b, v)) l) = fill_after (x0, v0) l"
proof (induction "(x0, v0)" l arbitrary: x0 v0 rule: fill_after.induct)
  case 1
  then show ?case by simp
next
  case (2 x v r)
  then show ?case by simp
next
  case (3 x r)
  have ratio: "(v1 - v0) * (a * x - a * x0) / (a * x1 - a * x0)
                 = (v1 - v0) * (x - x0) / (x1 - x0)" for x1 v1
  proof -
    have "(a * x - a * x0) / (a * x1 - a * x0) = (a * (x - x0)) / (a * (x1 - x0))"
      by (simp only: right_diff_distrib)
    also have "\<dots> = (x - x0) / (x1 - x0)"
      using assms by simp
    finally have "(v1 - v0) * ((a * x - a * x0) / (a * x1 - a * x0))
                    = (v1 - v0) * ((x - x0) / (x1 - x0))"
      by simp
    then show ?thesis by (simp only: times_divide_eq_right)
  qed
  from 3 show ?case
    by (cases "next_valid r") (auto simp: next_valid_affine ratio)
qed

lemma interpolate_xy_affine:
  assumes "a \<noteq> 0"
  shows "interpolate_xy (map (\<lambda>(x, v). (a * x + b, v)) l) = interpolate_xy l"
  by (induction l rule: interpolate_xy.induct) (simp_all add: fill_after_affine [OF assms])

lemma interpolate_equally_spaced:
  assumes "d \<noteq> 0" and "ts = map (\<lambda>i. t0 + d * real i) [0..<length vs]"
  shows "interpolate_over_timestamps ts vs = interpolate vs"
proof -
  have "zip ts vs = map (\<lambda>(x, v). (d * x + t0, v)) (zip (map real [0..<length vs]) vs)"
    unfolding assms(2) by (simp add: zip_map1 comp_def case_prod_beta add.commute)
  then show ?thesis
    by (simp add: interpolate_over_timestamps_def interpolate_def interpolate_xy_affine [OF assms(1)])
qed

lemma length_fill_after: "length (fill_after p l) = length l"
  by (induction p l rule: fill_after.induct) simp_all

lemma length_interpolate_xy: "length (interpolate_xy l) = length l"
  by (induction l rule: interpolate_xy.induct) (simp_all add: length_fill_after)

lemma next_valid_first:
  "b < length l \<Longrightarrow> l ! b = (xb, Some vb) \<Longrightarrow> \<forall>j<b. snd (l ! j) = None
     \<Longrightarrow> next_valid l = Some (xb, vb)"
proof (induction l arbitrary: b rule: next_valid.induct)
  case 1
  then show ?case by simp
next
  case (2 x v r)
  then show ?case by (cases b) auto
next
  case (3 x r)
  then show ?case
  proof (cases b)
    case 0
    with 3 show ?thesis by simp
  next
    case (Suc b')
    with 3(2,3,4) have "b' < length r" "r ! b' = (xb, Some vb)" "\<forall>j<b'. snd (r ! j) = None"
      by auto
    then show ?thesis using 3(1) by simp
  qed
qed

lemma next_valid_none: "\<forall>j<length l. snd (l ! j) = None \<Longrightarrow> next_valid l = None"
proof (induction l rule: next_valid.induct)
  case 1
  then show ?case by simp
next
  case (2 x v r)
  then show ?case by auto
next
  case (3 x r)
  then have "\<forall>j<length r. snd (r ! j) = None" by auto
  with 3 show ?case by simp
qed

lemma fill_after_kept:
  "i < length l \<Longrightarrow> snd (l ! i) = Some v \<Longrightarrow> fill_after p l ! i = v"
proof (induction p l arbitrary: i rule: fill_after.induct)
  case (1 p)
  then show ?case by simp
next
  case (2 p x v' r)
  then show ?case by (cases i) auto
next
  case (3 p x r)
  then show ?case by (cases i) auto
qed

lemma fill_after_gap:
  "b < length l \<Longrightarrow> l ! b = (xb, Some vb) \<Longrightarrow> \<forall>j<b. snd (l ! j) = None \<Longrightarrow> i < b
     \<Longrightarrow> fill_after p l ! i = snd p + (vb - snd p) / (xb - fst p) * (fst (l ! i) - fst p)"
proof (induction p l arbitrary: b i rule: fill_after.induct)
  case (1 p)
  then show ?case by simp
next
  case (2 p x v r)
  from 2(3,4,5) have False by (cases b) auto
  then show ?case ..
next
  case (3 p x r)
  from 3(5) obtain b' where b: "b = Suc b'" by (cases b) auto
  with 3(2,3,4) have r: "b' < length r" "r ! b' = (xb, Some vb)" "\<forall>j<b'. snd (r ! j) = None"
    by auto
  show ?case
  proof (cases i)
    case 0
    with next_valid_first [OF r] show ?thesis by simp
  next
    case (Suc i')
    with 3(5) b have "i' < b'" by simp
    from 3(1) [OF r this] Suc show ?thesis by simp
  qed
qed

lemma fill_after_all_none:
  "\<forall>j<length l. snd (l ! j) = None \<Longrightarrow> i < length l \<Longrightarrow> fill_after p l ! i = snd p"
proof (induction p l arbitrary: i rule: fill_after.induct)
  case (1 p)
  then show ?case by simp
next
  case (2 p x v r)
  then show ?case by auto
next
  case (3 p x r)
  from 3(2) have r: "\<forall>j<length r. snd (r ! j) = None" by auto
  show ?case
  proof (cases i)
    case 0
    with next_valid_none [OF r] show ?thesis by simp
  next
    case (Suc i')
    with 3(3) have "i' < length r" by simp
    from 3(1) [OF r this] Suc show ?thesis by simp
  qed
qed

lemma fill_after_interior:
  "a < i \<Longrightarrow> i < b \<Longrightarrow> b < length l \<Longrightarrow> l ! a = (xa, Some va) \<Longrightarrow> l ! b = (xb, Some vb)
     \<Longrightarrow> \<forall>j. a < j \<and> j < b \<longrightarrow> snd (l ! j) = None
     \<Longrightarrow> fill_after p l ! i = va + (vb - va) / (xb - xa) * (fst (l ! i) - xa)"
proof (induction l arbitrary: p a i b)
  case Nil
  then show ?case by simp
next
  case (Cons e r)
  from Cons.prems(1,2) obtain i' b' where i: "i = Suc i'" and b: "b = Suc b'"
    by (cases i; cases b) auto
  obtain p' where step: "fill_after p (e # r) = hd (fill_after p (e # r)) # fill_after p' r"
    and p': "snd e = Some va \<Longrightarrow> fst e = xa \<Longrightarrow> p' = (xa, va)"
    by (cases e; cases "snd e") auto
  show ?case
  proof (cases a)
    case 0
    with Cons.prems(4) have e: "e = (xa, Some va)" by simp
    have r: "b' < length r" "r ! b' = (xb, Some vb)" "\<forall>j<b'. snd (r ! j) = None" "i' < b'"
      using Cons.prems 0 i b by auto
    from fill_after_gap [OF r, of "(xa, va)"] i e show ?thesis by simp
  next
    case (Suc a')
    have r: "a' < i'" "i' < b'" "b' < length r" "r ! a' = (xa, Some va)" "r ! b' = (xb, Some vb)"
      "\<forall>j. a' < j \<and> j < b' \<longrightarrow> snd (r ! j) = None"
      using Cons.prems Suc i b by auto
    from Cons.IH [OF r, of p'] step i show ?thesis
      by (metis nth_Cons_Suc)
  qed
qed

lemma fill_after_trailing:
  "a < i \<Longrightarrow> i < length l \<Longrightarrow> l ! a = (xa, Some va)
     \<Longrightarrow> \<forall>j. a < j \<and> j < length l \<longrightarrow> snd (l ! j) = None
     \<Longrightarrow> fill_after p l ! i = va"
proof (induction l arbitrary: p a i)
  case Nil
  then show ?case by simp
next
  case (Cons e r)
  from Cons.prems(1) obtain i' where i: "i = Suc i'" by (cases i) auto
  obtain p' where step: "fill_after p (e # r) = hd (fill_after p (e # r)) # fill_after p' r"
    by (cases e; cases "snd e") auto
  show ?case
  proof (cases a)
    case 0
    with Cons.prems(3) have e: "e = (xa, Some va)" by simp
    have r: "\<forall>j<length r. snd (r ! j) = None" "i' < length r"
      using Cons.prems 0 i by auto
    from fill_after_all_none [OF r, of "(xa, va)"] i e show ?thesis by simp
  next
    case (Suc a')
    have r: "a' < i'" "i' < length r" "r ! a' = (xa, Some va)"
      "\<forall>j. a' < j \<and> j < length r \<longrightarrow> snd (r ! j) = None"
      using Cons.prems Suc i by auto
    from Cons.IH [OF r, of p'] step i show ?thesis
      by (metis nth_Cons_Suc)
  qed
qed


lemma interpolate_xy_kept:
  "i < length l \<Longrightarrow> snd (l ! i) = Some v \<Longrightarrow> interpolate_xy l ! i = Some v"
proof (induction l arbitrary: i rule: interpolate_xy.induct)
  case 1
  then show ?case by simp
next
  case (2 x r)
  then show ?case by (cases i) auto
next
  case (3 x v' r)
  then show ?case by (cases i) (auto simp: fill_after_kept length_fill_after)
qed

lemma interpolate_xy_leading:
  "i < length l \<Longrightarrow> \<forall>j\<le>i. snd (l ! j) = None \<Longrightarrow> interpolate_xy l ! i = None"
proof (induction l arbitrary: i rule: interpolate_xy.induct)
  case 1
  then show ?case by simp
next
  case (2 x r)
  show ?case
  proof (cases i)
    case 0
    then show ?thesis by simp
  next
    case (Suc i')
    with 2(2,3) have "i' < length r" "\<forall>j\<le>i'. snd (r ! j) = None" by auto
    with 2(1) Suc show ?thesis by simp
  qed
next
  case (3 x v r)
  then show ?case by auto
qed

lemma interpolate_xy_interior:
  "a < i \<Longrightarrow> i < b \<Longrightarrow> b < length l \<Longrightarrow> l ! a = (xa, Some va) \<Longrightarrow> l ! b = (xb, Some vb)
     \<Longrightarrow> \<forall>j. a < j \<and> j < b \<longrightarrow> snd (l ! j) = None
     \<Longrightarrow> interpolate_xy l ! i = Some (va + (vb - va) / (xb - xa) * (fst (l ! i) - xa))"
proof (induction l arbitrary: a i b rule: interpolate_xy.induct)
  case 1
  then show ?case by simp
next
  case (2 x r)
  from 2(2,3) obtain i' b' where i: "i = Suc i'" and b: "b = Suc b'"
    by (cases i; cases b) auto
  from 2(5) obtain a' where a: "a = Suc a'" by (cases a) auto
  have r: "a' < i'" "i' < b'" "b' < length r" "r ! a' = (xa, Some va)" "r ! b' = (xb, Some vb)"
    "\<forall>j. a' < j \<and> j < b' \<longrightarrow> snd (r ! j) = None"
    using 2(2-7) a i b by auto
  from 2(1) [OF r] i show ?case by simp
next
  case (3 x v r)
  from 3(1,2) obtain i' b' where i: "i = Suc i'" and b: "b = Suc b'"
    by (cases i; cases b) auto
  have il: "i' < length r" using 3(2,3) i b by simp
  show ?case
  proof (cases a)
    case 0
    with 3(4) have e: "x = xa" "v = va" by simp_all
    have r: "b' < length r" "r ! b' = (xb, Some vb)" "\<forall>j<b'. snd (r ! j) = None" "i' < b'"
      using 3 0 i b by auto
    from fill_after_gap [OF r, of "(xa, va)"] i e il show ?thesis
      by (simp add: length_fill_after)
  next
    case (Suc a')
    have r: "a' < i'" "i' < b'" "b' < length r" "r ! a' = (xa, Some va)" "r ! b' = (xb, Some vb)"
      "\<forall>j. a' < j \<and> j < b' \<longrightarrow> snd (r ! j) = None"
      using 3 Suc i b by auto
    from fill_after_interior [OF r, of "(x, v)"] i il show ?thesis
      by (simp add: length_fill_after)
  qed
qed

lemma interpolate_xy_trailing:
  "a < i \<Longrightarrow> i < length l \<Longrightarrow> l ! a = (xa, Some va)
     \<Longrightarrow> \<forall>j. a < j \<and> j < length l \<longrightarrow> snd (l ! j) = None
     \<Longrightarrow> interpolate_xy l ! i = Some va"
proof (induction l arbitrary: a i rule: interpolate_xy.induct)
  case 1
  then show ?case by simp
next
  case (2 x r)
  from 2(2) obtain i' where i: "i = Suc i'" by (cases i) auto
  from 2(4) obtain a' where a: "a = Suc a'" by (cases a) auto
  have r: "a' < i'" "i' < length r" "r ! a' = (xa, Some va)"
    "\<forall>j. a' < j \<and> j < length r \<longrightarrow> snd (r ! j) = None"
    using 2(2-5) a i by auto
  from 2(1) [OF r] i show ?case by simp
next
  case (3 x v r)
  from 3(1) obtain i' where i: "i = Suc i'" by (cases i) auto
  have il: "i' < length r" using 3(2) i by simp
  show ?case
  proof (cases a)
    case 0
    with 3(3) have e: "x = xa" "v = va" by simp_all
    have r: "\<forall>j<length r. snd (r ! j) = None" using 3(4) 0 by auto
    from fill_after_all_none [OF r il, of "(xa, va)"] i e il show ?thesis
      by (simp add: length_fill_after)
  next
    case (Suc a')
    have r: "a' < i'" "i' < length r" "r ! a' = (xa, Some va)"
      "\<forall>j. a' < j \<and> j < length r \<longrightarrow> snd (r ! j) = None"
      using 3 Suc i by auto
    from fill_after_trailing [OF r, of "(x, v)"] i il show ?thesis
      by (simp add: length_fill_after)
  qed
qed

lemma interpolate_xy_shape:
  "\<exists>m ys. interpolate_xy l = replicate m None @ map Some ys"
proof (induction l rule: interpolate_xy.induct)
  case 1
  show ?case by (rule exI [of _ 0]) simp
next
  case (2 x r)
  then obtain m ys where "interpolate_xy r = replicate m None @ map Some ys" by blast
  then have "interpolate_xy ((x, None) # r) = replicate (Suc m) None @ map Some ys" by simp
  then show ?case by blast
next
  case (3 x v r)
  have "interpolate_xy ((x, Some v) # r) = replicate 0 None @ map Some (v # fill_after (x, v) r)"
    by simp
  then show ?case by blast
qed


lemma ffill_from_Some: "ffill_from prev (map Some zs @ l)
    = map Some zs @ ffill_from (if zs = [] then prev else Some (last zs)) l"
  by (induction zs arbitrary: prev) auto

lemma ffill_from_None: "ffill_from prev (replicate m None) = replicate m prev"
  by (induction m) auto

lemma fill_shape:
  "ffill (bfill (replicate m None @ map Some ys))
     = (if ys = [] then replicate m None else replicate m (Some (hd ys)) @ map Some ys)"
proof (cases "ys = []")
  case True
  then show ?thesis by (simp add: bfill_def ffill_def ffill_from_None)
next
  case False
  have "ffill (rev (replicate m None @ map Some ys))
          = map Some (rev ys) @ replicate m (Some (hd ys))"
    using False ffill_from_Some [of None "rev ys" "replicate m None"]
    by (simp add: ffill_def rev_map ffill_from_None last_rev)
  then have b: "bfill (replicate m None @ map Some ys) = replicate m (Some (hd ys)) @ map Some ys"
    by (simp add: bfill_def rev_map)
  have "replicate m (Some (hd ys)) @ map Some ys = map Some (replicate m (hd ys) @ ys)" by simp
  then have "ffill (replicate m (Some (hd ys)) @ map Some ys)
               = replicate m (Some (hd ys)) @ map Some ys"
    using ffill_from_Some [of None "replicate m (hd ys) @ ys" "[]"]
    by (simp add: ffill_def)
  with b False show ?thesis by simp
qed

lemma fill_of_interpolated:
  fixes I :: "real option list"
  assumes shape: "I = replicate m None @ map Some ys"
  shows "length (ffill (bfill I)) = length I"
    and "i < length I \<Longrightarrow> I ! i = Some y \<Longrightarrow> ffill (bfill I) ! i = Some y"
    and "b < length I \<Longrightarrow> I ! b = Some y \<Longrightarrow> \<forall>j<b. I ! j = None \<Longrightarrow> i < b
           \<Longrightarrow> ffill (bfill I) ! i = Some y"
    and "\<forall>j<length I. I ! j = None \<Longrightarrow> ffill (bfill I) = I"
proof -
  note f = fill_shape [of m ys, folded shape]
  show "length (ffill (bfill I)) = length I"
    unfolding f by (simp add: shape)
  show "ffill (bfill I) ! i = Some y" if "i < length I" "I ! i = Some y"
  proof -
    from that have "m \<le> i" "ys \<noteq> []"
      unfolding shape by (auto simp: nth_append split: if_splits)
    with that show ?thesis
      unfolding f by (simp add: shape nth_append)
  qed
  show "ffill (bfill I) ! i = Some y"
    if "b < length I" "I ! b = Some y" "\<forall>j<b. I ! j = None" "i < b"
  proof -
    from that(1,2) have mb: "m \<le> b" and ne: "ys \<noteq> []"
      unfolding shape by (auto simp: nth_append split: if_splits)
    have "b \<le> m"
    proof (rule ccontr)
      assume "\<not> b \<le> m"
      then have "m < b" by simp
      with that(3) have "I ! m = None" by simp
      moreover have "I ! m = Some (ys ! 0)" using ne unfolding shape by (simp add: nth_append)
      ultimately show False by simp
    qed
    with mb have bm: "b = m" by simp
    with that(2) ne have "y = hd ys"
      unfolding shape by (simp add: nth_append hd_conv_nth)
    with that(4) bm ne show ?thesis
      unfolding f by (simp add: nth_append)
  qed
  show "ffill (bfill I) = I" if "\<forall>j<length I. I ! j = None"
  proof -
    have "ys = []"
    proof (rule ccontr)
      assume ne: "ys \<noteq> []"
      then have "m < length I" and "I ! m = Some (ys ! 0)"
        unfolding shape by (simp_all add: nth_append)
      with that show False by auto
    qed
    then show ?thesis unfolding f by (simp add: shape)
  qed
qed

lemma collect_length: "collect rs = Inr xs \<Longrightarrow> length xs = length rs"
proof (induction rs arbitrary: xs)
  case Nil
  then show ?case by simp
next
  case (Cons r rs)
  then show ?case by (cases r; cases "collect rs") auto
qed

lemma folder_traces_props:
  assumes "folder_traces core nf wl po f fs = Inr ts"
  shows "length ts = length metrics"
    and "k < length metrics \<Longrightarrow> make_trace core nf wl po f fs (metrics ! k) = Inr (ts ! k)"
proof -
  let ?rs = "map (make_trace core nf wl po f fs) metrics"
  have c: "collect ?rs = Inr ts" using assms by (simp only: folder_traces_def)
  from collect_length [OF c] show "length ts = length metrics" by simp
  assume k: "k < length metrics"
  then have "k < length ?rs" by simp
  from collect_nth [OF c this] k show "make_trace core nf wl po f fs (metrics ! k) = Inr (ts ! k)"
    by simp
qed

lemma make_trace_props:
  assumes "make_trace core nf wl po f fs m = Inr tr"
  shows "trace_name tr = f" and "trace_index tr = map timestamp fs"
    and "smooth_trace core nf wl po (fill_gaps (metric_values m fs)) = Inr (trace_values tr)"
    and "length (trace_values tr) = length fs"
  using assms
  by (auto simp: make_trace_def split: sum.splits if_splits)

lemma compile_folders_traces:
  "collect (map (compile_folder core nf wl po w) folders) = Inr pf \<Longrightarrow>
   list_all2 (\<lambda>f ts. \<exists>fs. features (get_run w f) = Some (Table fs) \<and>
                          folder_traces core nf wl po f fs = Inr ts)
     (runs_with_features w folders)
     (concat (map (\<lambda>t. case t of None \<Rightarrow> [] | Some ts \<Rightarrow> [ts]) pf))"
proof (induction folders arbitrary: pf)
  case Nil
  then show ?case by (simp add: runs_with_features_def)
next
  case (Cons f folders)
  from Cons.prems obtain t pf' where
    t: "compile_folder core nf wl po w f = Inr t" and
    r: "collect (map (compile_folder core nf wl po w) folders) = Inr pf'" and
    pf: "pf = t # pf'"
    by (cases "compile_folder core nf wl po w f";
        cases "collect (map (compile_folder core nf wl po w) folders)") auto
  note ih = Cons.IH [OF r]
  show ?case
  proof (cases "features (get_run w f)")
    case None
    with t have "t = None" by (simp add: compile_folder_def)
    with None ih show ?thesis by (simp add: pf runs_with_features_def)
  next
    case (Some csvf)
    with t obtain fs ts where "csvf = Table fs" and "folder_traces core nf wl po f fs = Inr ts"
      and "t = Some ts"
      by (cases csvf) (auto simp: compile_folder_def read_csv_def split: sum.splits)
    with Some ih show ?thesis by (simp add: pf runs_with_features_def)
  qed
qed

lemma save_summaries_props:
  assumes "save_summaries pfs = Inr tables" and "pfs \<noteq> []"
  shows "length tables = length metrics"
    and "k < length metrics \<Longrightarrow>
           \<exists>t. pd_concat (map (\<lambda>ts. ts ! k) pfs) = Inr t \<and> tables ! k = (metrics ! k, t)"
proof -
  let ?rs = "map (\<lambda>k. case pd_concat (map (\<lambda>ts. ts ! k) pfs) of
                          Inl e \<Rightarrow> Inl e | Inr t \<Rightarrow> Inr (metrics ! k, t)) [0..<length metrics]"
  have c: "collect ?rs = Inr tables"
    using assms by (simp add: save_summaries_def)
  from collect_length [OF c] show "length tables = length metrics" by simp
  assume k: "k < length metrics"
  then have "k < length ?rs" by simp
  from collect_nth [OF c this] k
  show "\<exists>t. pd_concat (map (\<lambda>ts. ts ! k) pfs) = Inr t \<and> tables ! k = (metrics ! k, t)"
    by (auto split: sum.splits)
qed

lemma set_union_first: "set (union_first acc xs) = set acc \<union> set xs"
  by (induction acc xs rule: union_first.induct) auto

lemma pd_concat_props:
  assumes "pd_concat ss = Inr t"
  shows "map fst (summary_columns t) = map trace_name ss"
    and "set (summary_index t) = (\<Union>s \<in> set ss. set (trace_index s))"
    and "list_all (\<lambda>s. length (trace_values s) = length (trace_index s)) ss
           \<Longrightarrow> list_all (\<lambda>c. length (snd c) = length (summary_index t)) (summary_columns t)"
proof -
  from assms obtain s0 rest where ss: "ss = s0 # rest"
    by (cases ss) (auto simp: pd_concat_def)
  show "map fst (summary_columns t) = map trace_name ss"
    using assms by (auto simp: pd_concat_def ss Let_def comp_def split: if_splits)
  show "set (summary_index t) = (\<Union>s \<in> set ss. set (trace_index s))"
    using assms
    by (auto simp: pd_concat_def ss Let_def set_union_first list_all_iff split: if_splits)
  assume "list_all (\<lambda>s. length (trace_values s) = length (trace_index s)) ss"
  then show "list_all (\<lambda>c. length (snd c) = length (summary_index t)) (summary_columns t)"
    using assms
    by (auto simp: pd_concat_def ss Let_def list_all_iff split: if_splits)
qed


lemma list_all2_names:
  "list_all2 (\<lambda>f tr. trace_name tr = f \<and> P f tr) xs ys \<Longrightarrow> map trace_name ys = xs"
  by (induction xs ys rule: list_all2_induct) auto

lemma list_all2_Union:
  "list_all2 (\<lambda>f tr. h tr = g f) xs ys \<Longrightarrow> (\<Union>s \<in> set ys. h s) = (\<Union>f \<in> set xs. g f)"
  by (induction xs ys rule: list_all2_induct) auto


lemma fill_gaps_props:
  assumes ts: "ts = map (\<lambda>i. t0 + d * real i) [0..<length vs]" and d: "d \<noteq> 0"
  shows "length (fill_gaps vs) = length vs"
    and "i < length vs \<Longrightarrow> vs ! i = Some v \<Longrightarrow> fill_gaps vs ! i = Some v"
    and "a < i \<Longrightarrow> i < b \<Longrightarrow> b < length vs \<Longrightarrow> vs ! a = Some va \<Longrightarrow> vs ! b = Some vb
           \<Longrightarrow> \<forall>j. a < j \<and> j < b \<longrightarrow> vs ! j = None
           \<Longrightarrow> fill_gaps vs ! i = Some (va + (vb - va) * ((ts ! i - ts ! a) / (ts ! b - ts ! a)))"
    and "b < length vs \<Longrightarrow> vs ! b = Some vb \<Longrightarrow> \<forall>j<b. vs ! j = None \<Longrightarrow> i < b
           \<Longrightarrow> fill_gaps vs ! i = Some vb"
    and "a < i \<Longrightarrow> i < length vs \<Longrightarrow> vs ! a = Some va
           \<Longrightarrow> \<forall>j. a < j \<and> j < length vs \<longrightarrow> vs ! j = None
           \<Longrightarrow> fill_gaps vs ! i = Some va"
    and "\<forall>j<length vs. vs ! j = None \<Longrightarrow> fill_gaps vs = vs"
proof -
  define l where "l = zip ts vs"
  define I where "I = interpolate_xy l"
  have lts: "length ts = length vs" by (simp add: ts)
  have ll: "length l = length vs" by (simp add: l_def lts)
  have nth_l: "l ! j = (ts ! j, vs ! j)" if "j < length vs" for j
    using that by (simp add: l_def lts)
  have lI: "length I = length vs" by (simp add: I_def length_interpolate_xy ll)
  have "interpolate vs = I"
    using interpolate_equally_spaced [OF d ts]
    by (simp add: I_def l_def interpolate_over_timestamps_def)
  then have g: "fill_gaps vs = ffill (bfill I)" by (simp add: fill_gaps_def)
  obtain m ys where shape: "I = replicate m None @ map Some ys"
    unfolding I_def using interpolate_xy_shape by blast
  note F = fill_of_interpolated [OF shape]
  show "length (fill_gaps vs) = length vs" by (simp add: g F(1) lI)
  show "fill_gaps vs ! i = Some v" if "i < length vs" "vs ! i = Some v"
  proof -
    from that have "I ! i = Some v"
      unfolding I_def by (intro interpolate_xy_kept) (simp_all add: ll nth_l)
    with that(1) show ?thesis unfolding g by (intro F(2)) (simp_all add: lI)
  qed
  show "fill_gaps vs ! i = Some (va + (vb - va) * ((ts ! i - ts ! a) / (ts ! b - ts ! a)))"
    if "a < i" "i < b" "b < length vs" "vs ! a = Some va" "vs ! b = Some vb"
      "\<forall>j. a < j \<and> j < b \<longrightarrow> vs ! j = None"
  proof -
    have "interpolate_xy l ! i
            = Some (va + (vb - va) / (ts ! b - ts ! a) * (fst (l ! i) - ts ! a))"
      using that by (intro interpolate_xy_interior [where a = a and b = b]) (simp_all add: ll nth_l)
    then have "I ! i = Some (va + (vb - va) * ((ts ! i - ts ! a) / (ts ! b - ts ! a)))"
      using that by (simp add: I_def nth_l)
    with that show ?thesis unfolding g by (intro F(2)) (simp_all add: lI)
  qed
  show "fill_gaps vs ! i = Some vb"
    if "b < length vs" "vs ! b = Some vb" "\<forall>j<b. vs ! j = None" "i < b"
  proof -
    have b: "I ! b = Some vb"
      using that unfolding I_def by (intro interpolate_xy_kept) (simp_all add: ll nth_l)
    have "I ! j = None" if "j < b" for j
      unfolding I_def using that \<open>b < length vs\<close> \<open>\<forall>j<b. vs ! j = None\<close>
      by (intro interpolate_xy_leading) (simp_all add: ll nth_l)
    then have "\<forall>j<b. I ! j = None" by blast
    with b that show ?thesis unfolding g by (intro F(3) [where b = b]) (simp_all add: lI)
  qed
  show "fill_gaps vs ! i = Some va"
    if "a < i" "i < length vs" "vs ! a = Some va" "\<forall>j. a < j \<and> j < length vs \<longrightarrow> vs ! j = None"
  proof -
    have "I ! i = Some va"
      using that unfolding I_def
      by (intro interpolate_xy_trailing [where a = a and xa = "ts ! a"]) (simp_all add: ll nth_l)
    with that show ?thesis unfolding g by (intro F(2)) (simp_all add: lI)
  qed
  show "fill_gaps vs = vs" if "\<forall>j<length vs. vs ! j = None"
  proof -
    have n: "I ! j = None" if "j < length vs" for j
      unfolding I_def using that \<open>\<forall>j<length vs. vs ! j = None\<close>
      by (intro interpolate_xy_leading) (simp_all add: ll nth_l)
    then have "\<forall>j<length I. I ! j = None" by (simp add: lI)
    then have "ffill (bfill I) = I" by (rule F(4))
    moreover have "I = vs"
      using n that by (intro nth_equalityI) (simp_all add: lI)
    ultimately show ?thesis by (simp add: g)
  qed
qed

lemma produced_timestamps_props:
  assumes "produced_timestamps table folder fs"
  shows "\<exists>d. d \<noteq> 0 \<and> (\<forall>j<length fs. timestamp (fs ! j) = str_of_int (int j * d))"
proof -
  from assms obtain tp where ta: "time_axis folder table = Inr (Some tp)"
    and len: "length fs \<le> length tp"
    and st: "map timestamp fs = map str_of_int (take (length fs) tp)"
    by (auto simp: produced_timestamps_def split: sum.splits option.splits)
  from ta obtain p :: reaction_params
    where ar: "np_arange (num_measurements p) (frequency p) = Inr tp"
    by (auto simp: time_axis_def split: option.splits sum.splits)
  define d where "d = frequency p"
  from ar have d: "d \<noteq> 0"
    and tp: "tp = map (\<lambda>i. int i * d) [0..<nat (- ((- num_measurements p) div d))]"
    by (auto simp: np_arange_def d_def split: if_splits)
  have "timestamp (fs ! j) = str_of_int (int j * d)" if j: "j < length fs" for j
  proof -
    from j have "timestamp (fs ! j) = map timestamp fs ! j" by simp
    also have "\<dots> = str_of_int (take (length fs) tp ! j)"
      unfolding st using j len by simp
    also have "take (length fs) tp ! j = tp ! j" using j by simp
    also have "tp ! j = int j * d"
    proof -
      from j len have "j < length tp" by simp
      then show ?thesis unfolding tp by simp
    qed
    finally show ?thesis .
  qed
  with d show ?thesis by blast
qed

lemma distinct_multiples:
  assumes "d \<noteq> 0" and "\<forall>j<length fs. timestamp (fs ! j) = str_of_int (int j * d)"
  shows "distinct (map timestamp fs)"
proof -
  have "map timestamp fs = map (\<lambda>j. str_of_int (int j * d)) [0..<length fs]"
    using assms(2) by (intro nth_equalityI) simp_all
  moreover have "distinct (map (\<lambda>j. str_of_int (int j * d)) [0..<length fs])"
  proof (simp add: distinct_map, rule inj_onI)
    fix x y
    assume "str_of_int (int x * d) = str_of_int (int y * d)"
    then have "int x * d = int y * d" by (rule str_of_int_inj)
    with assms(1) show "x = y" by simp
  qed
  ultimately show ?thesis by simp
qed

lemma those_Some: "those g = Some xs \<Longrightarrow> g = map Some xs"
proof (induction g arbitrary: xs)
  case Nil
  then show ?case by simp
next
  case (Cons a g)
  then show ?case by (cases a; cases "those g") auto
qed

lemma those_None: "those g = None \<longleftrightarrow> None \<in> set g"
proof (induction g)
  case Nil
  then show ?case by simp
next
  case (Cons a g)
  then show ?case by (cases a; cases "those g") auto
qed

lemma smooth_trace_props:
  assumes "smooth_trace core nf wl po g = Inr sm"
  shows "po < wl" and "wl \<le> length g"
    and "\<forall>xs. g = map Some xs \<longrightarrow> sm = map Some (core wl po xs)"
    and "None \<in> set g \<longrightarrow> nf wl po g = Inr sm"
proof -
  have c: "po < wl \<and> wl \<le> length g \<and>
           (\<forall>xs. g = map Some xs \<longrightarrow> sm = map Some (core wl po xs)) \<and>
           (None \<in> set g \<longrightarrow> nf wl po g = Inr sm)"
  proof (cases "those g")
    case None
    then have n: "None \<in> set g" by (simp add: those_None)
    then have no: "g \<noteq> map Some xs" for xs by auto
    from assms None
    have sf: "(case savgol_filter core wl po (length g) [] of
                 Inl e \<Rightarrow> Inl e | Inr _ \<Rightarrow> nf wl po g) = Inr sm"
      by (simp add: smooth_trace_def)
    have w: "\<not> (wl \<le> po \<or> length g < wl)"
    proof
      assume "wl \<le> po \<or> length g < wl"
      then have "savgol_filter core wl po (length g) [] = Inl ValueError"
        by (simp add: savgol_filter_def)
      with sf show False by simp
    qed
    then have "savgol_filter core wl po (length g) [] = Inr []"
      by (simp add: savgol_filter_def)
    with sf have "nf wl po g = Inr sm" by simp
    with w no show ?thesis by simp
  next
    case (Some ys)
    then have g: "g = map Some ys" by (rule those_Some)
    then have nn: "None \<notin> set g" by auto
    have u: "xs = ys" if "g = map Some xs" for xs
      using that g by (simp add: inj_map_eq_map)
    from assms Some
    have sf: "(case savgol_filter core wl po (length ys) [ys] of
                 Inl e \<Rightarrow> Inl e | Inr zs \<Rightarrow> Inr (map Some (concat zs))) = Inr sm"
      by (simp add: smooth_trace_def)
    have w: "\<not> (wl \<le> po \<or> length ys < wl)"
    proof
      assume "wl \<le> po \<or> length ys < wl"
      then have "savgol_filter core wl po (length ys) [ys] = Inl ValueError"
        by (simp add: savgol_filter_def)
      with sf show False by simp
    qed
    then have "savgol_filter core wl po (length ys) [ys] = Inr [core wl po ys]"
      by (simp add: savgol_filter_def)
    with sf have sm: "sm = map Some (core wl po ys)" by simp
    have "\<forall>xs. g = map Some xs \<longrightarrow> sm = map Some (core wl po xs)"
      using u sm by blast
    moreover from w have "po < wl" "wl \<le> length g" by (simp_all add: g)
    ultimately show ?thesis using nn by simp
  qed
  from c show "po < wl" "wl \<le> length g"
    "\<forall>xs. g = map Some xs \<longrightarrow> sm = map Some (core wl po xs)"
    "None \<in> set g \<longrightarrow> nf wl po g = Inr sm"
    by blast+
qed

lemma distinct_union_first: "distinct acc \<Longrightarrow> distinct (union_first acc xs)"
  by (induction acc xs rule: union_first.induct) auto

lemma trace_at_nth:
  "length (trace_values s) = length (trace_index s) \<Longrightarrow> distinct (trace_index s)
     \<Longrightarrow> j < length (trace_index s) \<Longrightarrow> trace_at s (trace_index s ! j) = trace_values s ! j"
  by (simp add: trace_at_def map_of_zip_nth)

lemma trace_at_absent:
  "length (trace_values s) = length (trace_index s) \<Longrightarrow> x \<notin> set (trace_index s)
     \<Longrightarrow> trace_at s x = None"
proof -
  assume "length (trace_values s) = length (trace_index s)" and "x \<notin> set (trace_index s)"
  then have "map_of (zip (trace_index s) (trace_values s)) x = None"
    by (subst map_of_zip_is_None) simp_all
  then show ?thesis by (simp add: trace_at_def)
qed

lemma pd_concat_cells:
  assumes c: "pd_concat ss = Inr t" and i: "i < length ss"
    and d: "distinct (trace_index (ss ! i))"
    and l: "length (trace_values (ss ! i)) = length (trace_index (ss ! i))"
  shows "distinct (summary_index t)"
    and "\<exists>cells. summary_columns t ! i = (trace_name (ss ! i), cells) \<and>
           length cells = length (summary_index t) \<and>
           (\<forall>r<length (summary_index t). \<forall>j<length (trace_index (ss ! i)).
               summary_index t ! r = trace_index (ss ! i) ! j \<longrightarrow> cells ! r = trace_values (ss ! i) ! j) \<and>
           (\<forall>r<length (summary_index t).
               summary_index t ! r \<notin> set (trace_index (ss ! i)) \<longrightarrow> cells ! r = None)"
proof -
  define s where "s = ss ! i"
  from c obtain s0 rest where ss: "ss = s0 # rest"
    by (cases ss) (auto simp: pd_concat_def)
  have mem: "s \<in> set ss" using i by (simp add: s_def)
  let ?same = "list_all (\<lambda>s. trace_index s = trace_index s0) ss"
  have both: "distinct (summary_index t) \<and>
        (\<exists>cells. summary_columns t ! i = (trace_name s, cells) \<and>
           length cells = length (summary_index t) \<and>
           (\<forall>r<length (summary_index t). \<forall>j<length (trace_index s).
               summary_index t ! r = trace_index s ! j \<longrightarrow> cells ! r = trace_values s ! j) \<and>
           (\<forall>r<length (summary_index t).
               summary_index t ! r \<notin> set (trace_index s) \<longrightarrow> cells ! r = None))"
  proof (cases ?same)
    case True
    with c have t: "t = \<lparr>summary_index = trace_index s0,
                         summary_columns = map (\<lambda>s. (trace_name s, trace_values s)) ss\<rparr>"
      by (simp add: pd_concat_def ss)
    from True mem have same: "trace_index s = trace_index s0" by (simp add: list_all_iff)
    have col: "summary_columns t ! i = (trace_name s, trace_values s)"
      using i by (simp add: t s_def)
    have idx: "summary_index t = trace_index s" by (simp add: t same)
    have ds: "distinct (trace_index s)" using d by (simp add: s_def)
    have "trace_values s ! r = trace_values s ! j"
      if "r < length (trace_index s)" "j < length (trace_index s)"
        "trace_index s ! r = trace_index s ! j" for r j
      using that ds by (simp add: nth_eq_iff_index_eq)
    then have a: "\<forall>r<length (summary_index t). \<forall>j<length (trace_index s).
               summary_index t ! r = trace_index s ! j \<longrightarrow> trace_values s ! r = trace_values s ! j"
      unfolding idx by blast
    have b: "\<forall>r<length (summary_index t).
               summary_index t ! r \<notin> set (trace_index s) \<longrightarrow> trace_values s ! r = None"
      unfolding idx by simp
    have len: "length (trace_values s) = length (summary_index t)"
      unfolding idx using l by (simp add: s_def)
    have dt: "distinct (summary_index t)" unfolding idx by (rule ds)
    from dt col len a b show ?thesis by blast
  next
    case False
    define u where "u = union_first [] (concat (map trace_index ss))"
    from False c have t: "t = \<lparr>summary_index = u,
                               summary_columns = map (\<lambda>s. (trace_name s, map (trace_at s) u)) ss\<rparr>"
      by (auto simp: pd_concat_def ss Let_def u_def split: if_splits)
    have col: "summary_columns t ! i = (trace_name s, map (trace_at s) u)"
      using i by (simp add: t s_def)
    have idx: "summary_index t = u" by (simp add: t)
    have du: "distinct u" unfolding u_def by (rule distinct_union_first) simp
    have ds: "distinct (trace_index s)" using d by (simp add: s_def)
    have ls: "length (trace_values s) = length (trace_index s)" using l by (simp add: s_def)
    have "map (trace_at s) u ! r = trace_values s ! j"
      if "r < length u" "j < length (trace_index s)" "u ! r = trace_index s ! j" for r j
      using that trace_at_nth [OF ls ds that(2)] by simp
    then have a: "\<forall>r<length (summary_index t). \<forall>j<length (trace_index s).
               summary_index t ! r = trace_index s ! j
                 \<longrightarrow> map (trace_at s) u ! r = trace_values s ! j"
      unfolding idx by blast
    have "map (trace_at s) u ! r = None"
      if "r < length u" "u ! r \<notin> set (trace_index s)" for r
      using that trace_at_absent [OF ls that(2)] by simp
    then have b: "\<forall>r<length (summary_index t).
               summary_index t ! r \<notin> set (trace_index s) \<longrightarrow> map (trace_at s) u ! r = None"
      unfolding idx by blast
    have len: "length (map (trace_at s) u) = length (summary_index t)"
      unfolding idx by simp
    have dt: "distinct (summary_index t)" unfolding idx by (rule du)
    from dt col len a b show ?thesis by blast
  qed
  from both show "distinct (summary_index t)" by blast
  from both show "\<exists>cells. summary_columns t ! i = (trace_name (ss ! i), cells) \<and>
           length cells = length (summary_index t) \<and>
           (\<forall>r<length (summary_index t). \<forall>j<length (trace_index (ss ! i)).
               summary_index t ! r = trace_index (ss ! i) ! j \<longrightarrow> cells ! r = trace_values (ss ! i) ! j) \<and>
           (\<forall>r<length (summary_index t).
               summary_index t ! r \<notin> set (trace_index (ss ! i)) \<longrightarrow> cells ! r = None)"
    unfolding s_def by blast
qed

lemma length_metric_values: "length (metric_values m fs) = length fs"
  by (cases m) (simp_all add: metric_values_def)

text \<open>
  C9. Let the aggregation return, and take a run that has a feature table as the
  pipeline produces it (\<open>produced_timestamps\<close>) and a channel. Then the summary table
  of the channel exists, has exactly one column per run with a feature file, in order
  and named after the run's folder, and its rows are the union of the timestamps of
  those runs, each once (outer join). The column of the run holds, at the row of each
  of the run's timestamps, the value of the smoothed series at that timestamp, and no
  value at the rows of other timestamps. The smoothed series is the
  Savitzky\<^emph>\<open>-\<close>Golay filter (\<open>core\<close>) applied with the window and order given to the
  filled series, the window being admissible; a filled series that still has a missing
  value is handed to the library as it is (\<open>nan_filter\<close>). The filled series keeps the
  values that are present; a missing value between two present ones lies on the line
  through them over the timestamp axis; missing values before the first present one are
  back-filled with it, those after the last present one forward-filled with it; a
  series without a present value is left as it is. The defaults of the window and order
  are 11 and 2, those of the smoother.
\<close>

theorem compile_traces_spec:
  assumes ok: "compile_experiment_traces core nan_filter w folders window_length polyorder = Inr w'"
    and i: "i < length (runs_with_features w folders)"
    and run: "run = runs_with_features w folders ! i"
    and fs: "features (get_run w run) = Some (Table fs)"
    and produced: "produced_timestamps table run fs"
    and k: "k < length metrics"
    and vs: "vs = metric_values (metrics ! k) fs"
  shows "\<exists>t cells smoothed filled ts.
      length (summaries w') = length metrics \<and>
      summaries w' ! k = (metrics ! k, t) \<and>
      map fst (summary_columns t) = runs_with_features w folders \<and>
      summary_columns t ! i = (run, cells) \<and>
      distinct (summary_index t) \<and>
      set (summary_index t) = (\<Union>f \<in> set (runs_with_features w folders). set (run_timestamps w f)) \<and>
      length cells = length (summary_index t) \<and>
      (\<forall>r<length (summary_index t). \<forall>j<length fs.
          summary_index t ! r = timestamp (fs ! j) \<longrightarrow> cells ! r = smoothed ! j) \<and>
      (\<forall>r<length (summary_index t).
          summary_index t ! r \<notin> set (map timestamp fs) \<longrightarrow> cells ! r = None) \<and>
      polyorder < window_length \<and> window_length \<le> length fs \<and>
      length smoothed = length fs \<and>
      (\<forall>xs. filled = map Some xs \<longrightarrow> smoothed = map Some (core window_length polyorder xs)) \<and>
      (None \<in> set filled \<longrightarrow> nan_filter window_length polyorder filled = Inr smoothed) \<and>
      length ts = length fs \<and>
      (\<forall>j<length fs. py_float (timestamp (fs ! j)) = Inr (ts ! j)) \<and>
      length filled = length fs \<and>
      (\<forall>j<length fs. \<forall>v. vs ! j = Some v \<longrightarrow> filled ! j = Some v) \<and>
      (\<forall>a b j va vb. a < j \<and> j < b \<and> b < length fs \<and> vs ! a = Some va \<and> vs ! b = Some vb \<and>
           (\<forall>c. a < c \<and> c < b \<longrightarrow> vs ! c = None)
         \<longrightarrow> filled ! j = Some (va + (vb - va) * ((ts ! j - ts ! a) / (ts ! b - ts ! a)))) \<and>
      (\<forall>b j vb. j < b \<and> b < length fs \<and> vs ! b = Some vb \<and> (\<forall>c<b. vs ! c = None)
         \<longrightarrow> filled ! j = Some vb) \<and>
      (\<forall>a j va. a < j \<and> j < length fs \<and> vs ! a = Some va \<and>
           (\<forall>c. a < c \<and> c < length fs \<longrightarrow> vs ! c = None)
         \<longrightarrow> filled ! j = Some va) \<and>
      ((\<forall>j<length fs. vs ! j = None) \<longrightarrow> filled = vs) \<and>
      compile_defaults = apply_smoothing_defaults \<and>
      compile_defaults = (11, 2)"
proof -
  define present where "present = runs_with_features w folders"
  from ok obtain pf
    where pf: "collect (map (compile_folder core nan_filter window_length polyorder w) folders) = Inr pf"
    by (auto simp: compile_experiment_traces_def split: sum.splits)
  define pfs where "pfs = concat (map (\<lambda>t. case t of None \<Rightarrow> [] | Some ts \<Rightarrow> [ts]) pf)"
  from ok pf obtain tables where tables: "save_summaries pfs = Inr tables"
    and w': "w' = (if tables = [] then w else w\<lparr>summaries := tables\<rparr>)"
    by (auto simp: compile_experiment_traces_def pfs_def split: sum.splits)
  have all2: "list_all2 (\<lambda>f ts. \<exists>fs. features (get_run w f) = Some (Table fs) \<and>
                 folder_traces core nan_filter window_length polyorder f fs = Inr ts) present pfs"
    unfolding present_def pfs_def by (rule compile_folders_traces [OF pf])
  have ip: "i < length present" using i by (simp add: present_def)
  have lp: "length pfs = length present" using list_all2_lengthD [OF all2] by simp
  then have nonempty: "pfs \<noteq> []" using ip by auto
  have len: "length tables = length metrics"
    by (rule save_summaries_props(1) [OF tables nonempty])
  then have "tables \<noteq> []" by (auto simp: metrics_def)
  then have sums: "summaries w' = tables" by (simp add: w')

  have runp: "run = present ! i" by (simp add: run present_def)
  from list_all2_nthD [OF all2 ip] fs
  have ft: "folder_traces core nan_filter window_length polyorder run fs = Inr (pfs ! i)"
    by (auto simp: runp)
  define tr where "tr = pfs ! i ! k"
  have m: "make_trace core nan_filter window_length polyorder run fs (metrics ! k) = Inr tr"
    unfolding tr_def by (rule folder_traces_props(2) [OF ft k])
  note mp = make_trace_props [OF m]

  define trs where "trs = map (\<lambda>ts. ts ! k) pfs"
  have itrs: "i < length trs" by (simp add: trs_def lp ip)
  have tri: "trs ! i = tr" using ip lp by (simp add: trs_def tr_def)
  have tr2: "list_all2 (\<lambda>f tr. trace_name tr = f \<and> trace_index tr = run_timestamps w f) present trs"
    unfolding trs_def list_all2_map2
  proof (rule list_all2_mono [OF all2])
    fix f ts
    assume "\<exists>fs. features (get_run w f) = Some (Table fs) \<and>
                 folder_traces core nan_filter window_length polyorder f fs = Inr ts"
    then obtain fs where f: "features (get_run w f) = Some (Table fs)"
      and t: "folder_traces core nan_filter window_length polyorder f fs = Inr ts" by blast
    have "make_trace core nan_filter window_length polyorder f fs (metrics ! k) = Inr (ts ! k)"
      by (rule folder_traces_props(2) [OF t k])
    from make_trace_props(1,2) [OF this] f
    show "trace_name (ts ! k) = f \<and> trace_index (ts ! k) = run_timestamps w f"
      by (simp add: run_timestamps_def)
  qed
  have names: "map trace_name trs = present"
    by (rule list_all2_names [where P = "\<lambda>f tr. trace_index tr = run_timestamps w f"]) (rule tr2)
  have "list_all2 (\<lambda>f tr. set (trace_index tr) = set (run_timestamps w f)) present trs"
    by (rule list_all2_mono [OF tr2]) simp
  then have idx: "(\<Union>s \<in> set trs. set (trace_index s)) = (\<Union>f \<in> set present. set (run_timestamps w f))"
    by (rule list_all2_Union)
  from save_summaries_props(2) [OF tables nonempty k]
  obtain t where c: "pd_concat trs = Inr t" and tk: "tables ! k = (metrics ! k, t)"
    by (auto simp: trs_def)

  from produced_timestamps_props [OF produced]
  obtain d where d: "d \<noteq> 0" and stamps: "\<forall>j<length fs. timestamp (fs ! j) = str_of_int (int j * d)"
    by blast
  have dist: "distinct (trace_index (trs ! i))"
    unfolding tri mp(2) by (rule distinct_multiples [OF d stamps])
  have ltr: "length (trace_values (trs ! i)) = length (trace_index (trs ! i))"
    unfolding tri by (simp add: mp(2,4))
  from pd_concat_cells(2) [OF c itrs dist ltr]
  obtain cells where col: "summary_columns t ! i = (trace_name tr, cells)"
    and h7: "length cells = length (summary_index t)"
    and al: "\<forall>r<length (summary_index t). \<forall>j<length (trace_index tr).
               summary_index t ! r = trace_index tr ! j \<longrightarrow> cells ! r = trace_values tr ! j"
    and ab: "\<forall>r<length (summary_index t).
               summary_index t ! r \<notin> set (trace_index tr) \<longrightarrow> cells ! r = None"
    unfolding tri by blast

  define smoothed where "smoothed = trace_values tr"
  define filled where "filled = fill_gaps vs"
  define ts where "ts = map (\<lambda>j. real_of_int (int j * d)) [0..<length fs]"
  have lvs: "length vs = length fs" by (simp add: vs length_metric_values)
  have sm: "smooth_trace core nan_filter window_length polyorder filled = Inr smoothed"
    using mp(3) by (simp add: filled_def smoothed_def vs)
  have ts': "ts = map (\<lambda>i. 0 + real_of_int d * real i) [0..<length vs]"
    by (simp add: ts_def lvs mult.commute)
  have d': "real_of_int d \<noteq> 0" using d by simp
  note F = fill_gaps_props [OF ts' d']

  have h1: "length (summaries w') = length metrics" by (simp add: sums len)
  have h2: "summaries w' ! k = (metrics ! k, t)" by (simp add: sums tk)
  have h3: "map fst (summary_columns t) = runs_with_features w folders"
    using pd_concat_props(1) [OF c] names by (simp add: present_def)
  have h4: "summary_columns t ! i = (run, cells)" using col by (simp add: mp(1))
  have h5: "distinct (summary_index t)" by (rule pd_concat_cells(1) [OF c itrs dist ltr])
  have h6: "set (summary_index t)
              = (\<Union>f \<in> set (runs_with_features w folders). set (run_timestamps w f))"
    using pd_concat_props(2) [OF c] idx by (simp add: present_def)
  have h8: "\<forall>r<length (summary_index t). \<forall>j<length fs.
              summary_index t ! r = timestamp (fs ! j) \<longrightarrow> cells ! r = smoothed ! j"
    using al by (simp add: mp(2) smoothed_def)
  have h9: "\<forall>r<length (summary_index t).
              summary_index t ! r \<notin> set (map timestamp fs) \<longrightarrow> cells ! r = None"
    using ab by (simp add: mp(2))
  have lf: "length filled = length fs" by (simp add: filled_def F(1) lvs)
  have h10: "polyorder < window_length" by (rule smooth_trace_props(1) [OF sm])
  have h11: "window_length \<le> length fs" using smooth_trace_props(2) [OF sm] by (simp add: lf)
  have h12: "length smoothed = length fs" by (simp add: smoothed_def mp(4))
  have h13: "\<forall>xs. filled = map Some xs \<longrightarrow> smoothed = map Some (core window_length polyorder xs)"
    by (rule smooth_trace_props(3) [OF sm])
  have h14: "None \<in> set filled \<longrightarrow> nan_filter window_length polyorder filled = Inr smoothed"
    by (rule smooth_trace_props(4) [OF sm])
  have h15: "length ts = length fs" by (simp add: ts_def)
  have h16: "\<forall>j<length fs. py_float (timestamp (fs ! j)) = Inr (ts ! j)"
    using stamps by (simp add: ts_def py_float_str_of_int)
  have h18: "\<forall>j<length fs. \<forall>v. vs ! j = Some v \<longrightarrow> filled ! j = Some v"
    using F(2) by (simp add: filled_def lvs)
  have h19: "\<forall>a b j va vb. a < j \<and> j < b \<and> b < length fs \<and> vs ! a = Some va \<and> vs ! b = Some vb \<and>
                 (\<forall>c. a < c \<and> c < b \<longrightarrow> vs ! c = None)
               \<longrightarrow> filled ! j = Some (va + (vb - va) * ((ts ! j - ts ! a) / (ts ! b - ts ! a)))"
    unfolding filled_def using F(3) unfolding lvs by blast
  have h20: "\<forall>b j vb. j < b \<and> b < length fs \<and> vs ! b = Some vb \<and> (\<forall>c<b. vs ! c = None)
               \<longrightarrow> filled ! j = Some vb"
    unfolding filled_def using F(4) unfolding lvs by blast
  have h21: "\<forall>a j va. a < j \<and> j < length fs \<and> vs ! a = Some va \<and>
                 (\<forall>c. a < c \<and> c < length fs \<longrightarrow> vs ! c = None)
               \<longrightarrow> filled ! j = Some va"
    unfolding filled_def using F(5) unfolding lvs by blast
  have h22: "(\<forall>j<length fs. vs ! j = None) \<longrightarrow> filled = vs"
    unfolding filled_def using F(6) unfolding lvs by blast
  have h23: "compile_defaults = apply_smoothing_defaults"
    by (simp add: compile_defaults_def apply_smoothing_defaults_def)
  have h24: "compile_defaults = (11, 2)" by (simp add: compile_defaults_def)
  note facts = h1 h2 h3 h4 h5 h6 h7 h8 h9 h10 h11 h12 h13 h14 h15 h16 lf h18 h19 h20 h21 h22 h23 h24
  show ?thesis
    by (rule exI [of _ t], rule exI [of _ cells], rule exI [of _ smoothed],
        rule exI [of _ filled], rule exI [of _ ts], intro conjI) (fact facts)+
qed

text \<open>
  Witness for C9: two runs with a feature table and one without, window 1 and order 0,
  for which the filter is the identity. The width of the first run is back-filled at 0
  seconds and interpolated at 100 and 150 seconds, its peak wavelength interpolated at
  150 seconds; the width of the second run is forward-filled; the second run has no
  value at 150 and 200 seconds.
\<close>

theorem compile_traces_spec_witness:
  "compile_experiment_traces (\<lambda>w p xs. xs) (\<lambda>w p vs. Inl ValueError) summary_world
       [''01_a'', ''02_b'', ''03_c''] 1 0
     = Inr (summary_world\<lparr>summaries :=
         [(Max_intensity, \<lparr>summary_index = [''0'', ''50'', ''100'', ''150'', ''200''],
             summary_columns =
               [(''01_a'', [Some 60, Some 70, Some 80, Some 10, Some 90]),
                (''03_c'', [Some 65, Some 75, Some 85, None, None])]\<rparr>),
          (Peak_wavelength, \<lparr>summary_index = [''0'', ''50'', ''100'', ''150'', ''200''],
             summary_columns =
               [(''01_a'', [Some 900, Some 905, Some 910, Some 920, Some 930]),
                (''03_c'', [Some 915, Some 920, Some 925, None, None])]\<rparr>),
          (Fwhm_ev, \<lparr>summary_index = [''0'', ''50'', ''100'', ''150'', ''200''],
             summary_columns =
               [(''01_a'', [Some (3 / 100), Some (3 / 100), Some (4 / 100), Some (5 / 100),
                           Some (6 / 100)]),
                (''03_c'', [Some (4 / 100), Some (4 / 100), Some (4 / 100), None, None])]\<rparr>)]\<rparr>) \<and>
   runs_with_features summary_world [''01_a'', ''02_b'', ''03_c''] = [''01_a'', ''03_c''] \<and>
   features (get_run summary_world ''01_a'') = Some (Table summary_features_a) \<and>
   produced_timestamps summary_parameters ''01_a'' summary_features_a \<and>
   produced_timestamps summary_parameters ''03_c'' summary_features_c \<and>
   (\<exists>filled ts. length filled = 5 \<and> length ts = 5 \<and>
       py_float ''50'' = Inr (ts ! 1) \<and> py_float ''100'' = Inr (ts ! 2) \<and>
       py_float ''200'' = Inr (ts ! 4) \<and>
       filled ! 2 = Some (3 / 100 + (6 / 100 - 3 / 100) * ((ts ! 2 - ts ! 1) / (ts ! 4 - ts ! 1))))"
proof -
  define w' where "w' = summary_world\<lparr>summaries :=
         [(Max_intensity, \<lparr>summary_index = [''0'', ''50'', ''100'', ''150'', ''200''],
             summary_columns =
               [(''01_a'', [Some 60, Some 70, Some 80, Some 10, Some 90]),
                (''03_c'', [Some 65, Some 75, Some 85, None, None])]\<rparr>),
          (Peak_wavelength, \<lparr>summary_index = [''0'', ''50'', ''100'', ''150'', ''200''],
             summary_columns =
               [(''01_a'', [Some 900, Some 905, Some 910, Some 920, Some 930]),
                (''03_c'', [Some 915, Some 920, Some 925, None, None])]\<rparr>),
          (Fwhm_ev, \<lparr>summary_index = [''0'', ''50'', ''100'', ''150'', ''200''],
             summary_columns =
               [(''01_a'', [Some (3 / 100), Some (3 / 100), Some (4 / 100), Some (5 / 100),
                           Some (6 / 100)]),
                (''03_c'', [Some (4 / 100), Some (4 / 100), Some (4 / 100), None, None])]\<rparr>)]\<rparr>"
  have ok: "compile_experiment_traces (\<lambda>w p xs. xs) (\<lambda>w p vs. Inl ValueError) summary_world
              [''01_a'', ''02_b'', ''03_c''] 1 0 = Inr w'"
    unfolding w'_def by code_simp
  have present: "runs_with_features summary_world [''01_a'', ''02_b'', ''03_c''] = [''01_a'', ''03_c'']"
    by code_simp
  have i: "0 < length (runs_with_features summary_world [''01_a'', ''02_b'', ''03_c''])"
    by (simp add: present)
  have run: "''01_a'' = runs_with_features summary_world [''01_a'', ''02_b'', ''03_c''] ! 0"
    by (simp add: present)
  have fs: "features (get_run summary_world ''01_a'') = Some (Table summary_features_a)"
    by code_simp
  have pa: "produced_timestamps summary_parameters ''01_a'' summary_features_a"
    by code_simp
  have pc: "produced_timestamps summary_parameters ''03_c'' summary_features_c"
    by code_simp
  have k: "2 < length metrics" by (simp add: metrics_def)
  have vs: "metric_values (metrics ! 2) summary_features_a
              = [None, Some (3 / 100), None, None, Some (6 / 100)]"
    by (simp add: metrics_def metric_values_def summary_features_a_def)
  have l: "length summary_features_a = 5" by (simp add: summary_features_a_def)
  have st: "timestamp (summary_features_a ! Suc 0) = ''50''"
    "timestamp (summary_features_a ! 2) = ''100''"
    "timestamp (summary_features_a ! 4) = ''200''"
    by (simp_all add: summary_features_a_def)
  have gap: "\<forall>c. 1 < c \<and> c < 4
               \<longrightarrow> metric_values (metrics ! 2) summary_features_a ! c = None"
  proof (intro allI impI)
    fix c :: nat
    assume "1 < c \<and> c < 4"
    then have "c = 2 \<or> c = 3" by arith
    then show "metric_values (metrics ! 2) summary_features_a ! c = None"
      by (auto simp: vs)
  qed
  have "\<exists>filled ts. length filled = 5 \<and> length ts = 5 \<and>
       py_float ''50'' = Inr (ts ! 1) \<and> py_float ''100'' = Inr (ts ! 2) \<and>
       py_float ''200'' = Inr (ts ! 4) \<and>
       filled ! 2 = Some (3 / 100 + (6 / 100 - 3 / 100) * ((ts ! 2 - ts ! 1) / (ts ! 4 - ts ! 1)))"
    using compile_traces_spec [OF ok i run fs pa k refl]
  proof (elim exE conjE)
    fix filled :: "real option list" and ts :: "real list"
    assume lf: "length filled = length summary_features_a"
      and lt: "length ts = length summary_features_a"
      and pf: "\<forall>j<length summary_features_a.
               py_float (timestamp (summary_features_a ! j)) = Inr (ts ! j)"
      and ip: "\<forall>a b j va vb. a < j \<and> j < b \<and> b < length summary_features_a \<and>
               metric_values (metrics ! 2) summary_features_a ! a = Some va \<and>
               metric_values (metrics ! 2) summary_features_a ! b = Some vb \<and>
               (\<forall>c. a < c \<and> c < b \<longrightarrow> metric_values (metrics ! 2) summary_features_a ! c = None)
             \<longrightarrow> filled ! j = Some (va + (vb - va) * ((ts ! j - ts ! a) / (ts ! b - ts ! a)))"
    have "filled ! 2 = Some (3 / 100 + (6 / 100 - 3 / 100) * ((ts ! 2 - ts ! 1) / (ts ! 4 - ts ! 1)))"
      using ip [rule_format, of 1 2 4 "3 / 100" "6 / 100"] gap by (simp add: vs l)
    moreover have "py_float ''50'' = Inr (ts ! 1)" "py_float ''100'' = Inr (ts ! 2)"
      "py_float ''200'' = Inr (ts ! 4)"
      using pf [rule_format, of 1] pf [rule_format, of 2] pf [rule_format, of 4]
      by (simp_all add: l st)
    ultimately show ?thesis using lf lt l by auto
  qed
  with ok present fs pa pc show ?thesis unfolding w'_def by simp
qed

section \<open>Properties: error handling of the pipeline\<close>

text \<open>
  C2 does not hold of the code. In \<open>malformed_world\<close> the smoothed near-infrared file of
  the first run cannot be parsed. The merger, whose body is a \<open>try\<close>, catches the
  \<open>ValueError\<close> of the read and leaves the directory as it was; the feature extractor
  reads the same file outside any \<open>try\<close>, the exception leaves
  \<open>extract_spectral_features\<close> and then \<open>main\<close>, and the second run, which the pipeline
  would process without an exception, is never reached. In \<open>short_world\<close> the feature
  table of the run has fewer rows than the filter window: the \<open>ValueError\<close> of
  \<open>savgol_filter\<close>, caught per band in \<open>apply_smoothing\<close>, leaves
  \<open>compile_experiment_traces\<close> and \<open>main\<close>.
\<close>

theorem main_aborts_on_data_error:
  "merge_vis_nir_spectra malformed_world ''01_a'' 930 10 50 = Inr malformed_world \<and>
   extract_spectral_features malformed_world ''01_a'' 50 100 = Inl ValueError \<and>
   main core nan_filter malformed_world = Inl ValueError \<and>
   (case process_folder core example_parameters malformed_world ''02_b'' of
      Inl e \<Rightarrow> False
    | Inr w' \<Rightarrow> cleaned_nir (get_run w' ''02_b'') \<noteq> None) \<and>
   compile_experiment_traces core nan_filter short_world [''01_a'']
     (fst compile_defaults) (snd compile_defaults) = Inl ValueError \<and>
   main core nan_filter short_world = Inl ValueError"
  by code_simp

end
